theory Spec2Isabelle
  imports Main "HOL-Library.Word"
begin

unbundle bit_operations_syntax

section \<open>JavaScript numbers and bitwise operators\<close>

text \<open>
  The sources are TypeScript. Every number the decoder handles is an integer far below
  \<open>2 ^ 53\<close>, so a number is an \<open>int\<close>. The bitwise operators first convert their
  operands to 32-bit two's complement (ToInt32) and mask the shift count to its low five bits;
  \<open>>>\<close> is the arithmetic shift and \<open>%\<close> takes the sign of the dividend.
\<close>

definition ToInt32 :: "int \<Rightarrow> int" where
  "ToInt32 x = signed_take_bit 31 x"

definition js_shl :: "int \<Rightarrow> int \<Rightarrow> int" where
  "js_shl a n = ToInt32 (push_bit (nat (n mod 32)) (ToInt32 a))"

definition js_sar :: "int \<Rightarrow> int \<Rightarrow> int" where
  "js_sar a n = drop_bit (nat (n mod 32)) (ToInt32 a)"

definition js_and :: "int \<Rightarrow> int \<Rightarrow> int" where
  "js_and a b = ToInt32 a AND ToInt32 b"

definition js_or :: "int \<Rightarrow> int \<Rightarrow> int" where
  "js_or a b = ToInt32 a OR ToInt32 b"

definition js_not :: "int \<Rightarrow> int" where
  "js_not a = NOT (ToInt32 a)"

definition js_rem :: "int \<Rightarrow> int \<Rightarrow> int" where
  "js_rem a b = sgn a * (\<bar>a\<bar> mod \<bar>b\<bar>)"

section \<open>HuffmanTree.BitReverse\<close>

text \<open>
  Class \<open>HuffmanTree\<close> is the source file \<open>src/unnamed/part_001\<close>.
  \<^verbatim>\<open>
  public static BitReverse(code: number, length: number): number {
      var num = 0;
      do {
          num |= code & 1;
          num = num << 1;
          code = code >> 1;
      }
      while (--length > 0);
      return (num >> 1);
  }
  \<close>
\<close>

function BitReverse_loop :: "int \<Rightarrow> int \<Rightarrow> int \<Rightarrow> int" where
  "BitReverse_loop num code len =
     (if len - 1 > 0
      then BitReverse_loop (js_shl (js_or num (js_and code 1)) 1) (js_sar code 1) (len - 1)
      else js_shl (js_or num (js_and code 1)) 1)"
  by pat_completeness auto
termination
  by (relation "measure (\<lambda>(num, code, len). nat len)") auto

declare BitReverse_loop.simps [simp del]

definition BitReverse :: "int \<Rightarrow> int \<Rightarrow> int" where
  "BitReverse code len = js_sar (BitReverse_loop 0 code len) 1"

text \<open>
  The reversal of the low \<open>m\<close> bits of \<open>c\<close>, pushed onto an accumulator; the proofs below
  compare the loop with it.
\<close>

fun rev_acc :: "nat \<Rightarrow> int \<Rightarrow> int \<Rightarrow> int" where
  "rev_acc 0 acc c = acc"
| "rev_acc (Suc m) acc c = rev_acc m (2 * acc + c mod 2) (c div 2)"

section \<open>Arrays\<close>

text \<open>
  A \<open>Uint8Array\<close> has a fixed length, starts as zeros, stores every value reduced modulo 256,
  ignores a store outside its bounds and reads \<open>undefined\<close> there (\<open>None\<close> below).
  A list update \<open>xs[n := v]\<close> with \<open>n\<close> past the end leaves the list as it is.
\<close>

type_synonym Uint8Array = "8 word list"

definition Uint8Array_new :: "nat \<Rightarrow> Uint8Array" where
  "Uint8Array_new n = replicate n 0"

fun nth_opt :: "'a list \<Rightarrow> nat \<Rightarrow> 'a option" where
  "nth_opt [] n = None"
| "nth_opt (x # xs) 0 = Some x"
| "nth_opt (x # xs) (Suc n) = nth_opt xs n"

definition u8_get :: "Uint8Array \<Rightarrow> int \<Rightarrow> int option" where
  "u8_get a i = (if 0 \<le> i then map_option uint (nth_opt a (nat i)) else None)"

definition u8_set :: "Uint8Array \<Rightarrow> int \<Rightarrow> int \<Rightarrow> Uint8Array" where
  "u8_set a i v = (if 0 \<le> i then a[nat i := word_of_int v] else a)"

text \<open>A constant number table of the source, read at a computed index.\<close>

definition table_get :: "int list \<Rightarrow> int \<Rightarrow> int option" where
  "table_get xs i = (if 0 \<le> i then nth_opt xs (nat i) else None)"

section \<open>Errors\<close>

text \<open>
  One constructor per \<open>throw\<close> of the sources, named after the thrown string.
  \<open>Thrown_undefined\<close> is \<open>throw Inflate.endOfStreamEx\<close>, a static member that class
  \<open>Inflate\<close> does not declare. \<open>TypeError\<close> is what JavaScript throws for calling a
  method on a value that does not have it. \<open>Undefined_read\<close> is not a \<open>throw\<close>: the source
  has read \<open>undefined\<close> (an index outside an array, a window slot never written) and carries
  on with \<open>undefined\<close> or \<open>NaN\<close>; the model has neither and ends the run there.

  A function that can throw returns \<open>error + result\<close>. A throw leaves the JavaScript object
  as the statements before it have changed it; the model returns the error alone and does not
  follow an object after it has thrown.
\<close>

datatype error =
    InvalidHuffmanData
  | EndOfStreamException
  | End_Of_Stream_Exception
  | Unknown_Block_Type
  | InvalidBlockLength
  | GenericInvalidData
  | Invalid_Data_Exception
  | unknown_compression_method
  | invalid_window_size
  | incorrect_header_check
  | Invalid_Adler32_checksum
  | No_Inflate_source_specidied
  | Thrown_undefined
  | TypeError
  | Undefined_read

section \<open>Byte producers and InputBuffer\<close>

text \<open>
  Class \<open>InputBuffer\<close> is the source file \<open>src/src/input.ts\<close>.

  The engine is handed a value that it uses as an \<open>Iterator<number>\<close>. Two kinds of value reach
  it: an iterator object, modelled by the numbers it has yet to yield, and the method value
  \<open>source[Symbol.iterator]\<close> of an iterable, a function object that has no \<open>next\<close> method
  (it is the function that would create the iterator, and still holds the numbers of its source).
  \<open>iterator_next\<close> is \<open>iterator.next()\<close>: \<open>None\<close> is a result with \<open>done\<close> set, and the call
  itself is a \<open>TypeError\<close> on the method value.
\<close>

datatype producer = Iterator "int list" | IteratorMethod "int list"

fun iterator_next :: "producer \<Rightarrow> error + (int option \<times> producer)" where
  "iterator_next (Iterator []) = Inr (None, Iterator [])"
| "iterator_next (Iterator (v # vs)) = Inr (Some v, Iterator vs)"
| "iterator_next (IteratorMethod src) = Inl TypeError"

record InputBuffer =
  bitBuffer :: int
  bitsInBuffer :: int
  iterator :: producer

definition InputBuffer_new :: "producer \<Rightarrow> InputBuffer" where
  "InputBuffer_new it = \<lparr>bitBuffer = 0, bitsInBuffer = 0, iterator = it\<rparr>"

definition AvailableBits :: "InputBuffer \<Rightarrow> int" where
  "AvailableBits b = bitsInBuffer b"

text \<open>
  \<^verbatim>\<open>
  public TryGetBits(count = 15): number {
      var result: IteratorResult<number>;
      if ((this._bitsInBuffer < count) && !(result = this._iterator.next()).done) {
          this._bitBuffer |= result.value << this._bitsInBuffer;
          this._bitsInBuffer += 8;
          if ((this._bitsInBuffer < count) && !(result = this._iterator.next()).done) {
              this._bitBuffer |= result.value << this._bitsInBuffer;
              this._bitsInBuffer += 8;
          }
      }
      return this._bitBuffer;
  }

  public GetBits(count: number): number {
      var result: IteratorResult<number>;
      if (...) { ... }                      // the same two nested fills
      var bits: number = (this._bitBuffer & ((1 << count) - 1));
      this._bitBuffer >>= count;
      this._bitsInBuffer -= count;
      return bits;
  }

  public SkipBits(n: number) {
      this._bitBuffer >>= n;
      this._bitsInBuffer -= n;
  }

  public SkipToByteBoundary() {
      this._bitBuffer >>= (this._bitsInBuffer % 8);
      this._bitsInBuffer = this._bitsInBuffer - (this._bitsInBuffer % 8);
  }
  \<close>
  \<open>load\<close> is one guarded fill, \<open>(_bitsInBuffer < count) && !(result = _iterator.next()).done\<close>
  with its two assignments; it returns whether the byte was loaded. \<open>fill\<close> is the nested pair
  of fills that opens both \<open>TryGetBits\<close> and \<open>GetBits\<close>.
\<close>

definition load :: "int \<Rightarrow> InputBuffer \<Rightarrow> error + (bool \<times> InputBuffer)" where
  "load count b =
     (if bitsInBuffer b < count
      then (case iterator_next (iterator b) of
              Inl e \<Rightarrow> Inl e
            | Inr (None, it) \<Rightarrow> Inr (False, b\<lparr>iterator := it\<rparr>)
            | Inr (Some v, it) \<Rightarrow>
                Inr (True, \<lparr>bitBuffer = js_or (bitBuffer b) (js_shl v (bitsInBuffer b)),
                           bitsInBuffer = bitsInBuffer b + 8,
                           iterator = it\<rparr>))
      else Inr (False, b))"

definition fill :: "int \<Rightarrow> InputBuffer \<Rightarrow> error + InputBuffer" where
  "fill count b =
     (case load count b of
        Inl e \<Rightarrow> Inl e
      | Inr (False, b1) \<Rightarrow> Inr b1
      | Inr (True, b1) \<Rightarrow>
          (case load count b1 of
             Inl e \<Rightarrow> Inl e
           | Inr (_, b2) \<Rightarrow> Inr b2))"

definition TryGetBits :: "int \<Rightarrow> InputBuffer \<Rightarrow> error + (int \<times> InputBuffer)" where
  "TryGetBits count b =
     (case fill count b of
        Inl e \<Rightarrow> Inl e
      | Inr b' \<Rightarrow> Inr (bitBuffer b', b'))"

definition GetBits :: "int \<Rightarrow> InputBuffer \<Rightarrow> error + (int \<times> InputBuffer)" where
  "GetBits count b =
     (case fill count b of
        Inl e \<Rightarrow> Inl e
      | Inr b' \<Rightarrow>
          Inr (js_and (bitBuffer b') (js_shl 1 count - 1),
               b'\<lparr>bitBuffer := js_sar (bitBuffer b') count,
                  bitsInBuffer := bitsInBuffer b' - count\<rparr>))"

definition SkipBits :: "int \<Rightarrow> InputBuffer \<Rightarrow> InputBuffer" where
  "SkipBits n b = b\<lparr>bitBuffer := js_sar (bitBuffer b) n, bitsInBuffer := bitsInBuffer b - n\<rparr>"

definition SkipToByteBoundary :: "InputBuffer \<Rightarrow> InputBuffer" where
  "SkipToByteBoundary b =
     b\<lparr>bitBuffer := js_sar (bitBuffer b) (js_rem (bitsInBuffer b) 8),
       bitsInBuffer := bitsInBuffer b - js_rem (bitsInBuffer b) 8\<rparr>"

section \<open>HuffmanTree: construction\<close>

record HuffmanTree =
  tableBits :: int
  table :: Uint8Array
  left :: Uint8Array
  right :: Uint8Array
  codeLengthArray :: "int list"
  tableMask :: int
  maxCodeLength :: int

abbreviation MaxLiteralTreeElements :: nat where "MaxLiteralTreeElements \<equiv> 288"
abbreviation MaxDistTreeElements :: nat where "MaxDistTreeElements \<equiv> 32"
abbreviation EndOfBlockCode :: int where "EndOfBlockCode \<equiv> 256"
abbreviation NumberOfCodeLengthTreeElements :: nat where "NumberOfCodeLengthTreeElements \<equiv> 19"

text \<open>
  \<^verbatim>\<open>for (var x in array)\<close> enumerates the index keys \<open>0 .. length - 1\<close> of the array, not
  its elements; both \<open>for-in\<close> loops of the class are modelled as loops over these indices.

  \<^verbatim>\<open>
  private CalculateHuffmanCode(): Uint8Array {
      var bitLengthCount = new Uint8Array(17);
      for (var codeLength in this._codeLengthArray) {
          bitLengthCount[codeLength]++;
      }
      bitLengthCount[0] = 0;  // clear count for length 0

      var nextCode = new Uint8Array(17);
      var tempCode = 0;
      for (var bits = 1; bits <= 16; bits++) {
          tempCode = (tempCode + bitLengthCount[bits - 1]) << 1;
          nextCode[bits] = tempCode;
      }

      var code = new Uint8Array(HuffmanTree.MaxLiteralTreeElements);
      for (var i = 0; i < this._codeLengthArray.length; i++) {
          var len = this._codeLengthArray[i];

          if (len > 0) {
              code[i] = HuffmanTree.BitReverse(nextCode[len], len);
              nextCode[len]++;
          }
      }
      return code;
  }
  \<close>
  In \<open>BitReverse(nextCode[len], len)\<close> with \<open>len > 16\<close> the first argument is
  \<open>undefined\<close>, which \<open>&\<close> and \<open>>>\<close> read as 0.
\<close>

function bitLengthCount_loop :: "int \<Rightarrow> int \<Rightarrow> Uint8Array \<Rightarrow> Uint8Array" where
  "bitLengthCount_loop n codeLength bitLengthCount =
     (if codeLength < n
      then bitLengthCount_loop n (codeLength + 1)
             (case u8_get bitLengthCount codeLength of
                Some c \<Rightarrow> u8_set bitLengthCount codeLength (c + 1)
              | None \<Rightarrow> bitLengthCount)
      else bitLengthCount)"
  by pat_completeness auto
termination
  by (relation "measure (\<lambda>(n, codeLength, bitLengthCount). nat (n - codeLength))") auto

declare bitLengthCount_loop.simps [simp del]

definition nextCode_step :: "Uint8Array \<Rightarrow> int \<Rightarrow> int \<Rightarrow> int" where
  "nextCode_step bitLengthCount bits tempCode =
     js_shl (tempCode + uint (bitLengthCount ! nat (bits - 1))) 1"

function nextCode_loop :: "Uint8Array \<Rightarrow> int \<Rightarrow> int \<Rightarrow> Uint8Array \<Rightarrow> Uint8Array" where
  "nextCode_loop bitLengthCount bits tempCode nextCode =
     (if bits \<le> 16
      then nextCode_loop bitLengthCount (bits + 1)
             (nextCode_step bitLengthCount bits tempCode)
             (u8_set nextCode bits (nextCode_step bitLengthCount bits tempCode))
      else nextCode)"
  by pat_completeness auto
termination
  by (relation "measure (\<lambda>(bitLengthCount, bits, tempCode, nextCode). nat (17 - bits))") auto

declare nextCode_loop.simps [simp del]

text \<open>
  The third loop reads \<open>_codeLengthArray[i]\<close> for \<open>i = 0, 1, ...\<close>; the model walks the list of
  the lengths still to come and counts \<open>i\<close> beside it.
\<close>

fun code_loop :: "int list \<Rightarrow> int \<Rightarrow> Uint8Array \<Rightarrow> Uint8Array \<Rightarrow> Uint8Array" where
  "code_loop [] i nextCode code = code"
| "code_loop (len # rest) i nextCode code =
     (if len > 0
      then (case u8_get nextCode len of
              Some v \<Rightarrow> code_loop rest (i + 1) (u8_set nextCode len (v + 1))
                          (u8_set code i (BitReverse v len))
            | None \<Rightarrow> code_loop rest (i + 1) nextCode (u8_set code i (BitReverse 0 len)))
      else code_loop rest (i + 1) nextCode code)"

definition CalculateHuffmanCode :: "int list \<Rightarrow> Uint8Array" where
  "CalculateHuffmanCode cl =
     code_loop cl 0
       (nextCode_loop
          (u8_set (bitLengthCount_loop (int (length cl)) 0 (Uint8Array_new 17)) 0 0)
          1 0 (Uint8Array_new 17))
       (Uint8Array_new MaxLiteralTreeElements)"

text \<open>
  \<^verbatim>\<open>
  private CreateTable() {
      var codeArray = this.CalculateHuffmanCode();
      this._table = new Uint8Array(1 << this._tableBits);
      this._left = new Uint8Array(2 * this._codeLengthArray.length);
      this._right = new Uint8Array(2 * this._codeLengthArray.length);
      var avail = this._codeLengthArray.length;

      for (var ch = 0; ch < this._codeLengthArray.length; ch++) {
          var len = this._codeLengthArray[ch];
          if (len > 0) {
              var start = codeArray[ch];
              if (len <= this._tableBits) {
                  var increment = 1 << len;
                  if (start >= increment) {
                      throw "InvalidHuffmanData";
                  }
                  var locs = 1 << (this._tableBits - len);
                  for (var j = 0; j < locs; j++) {
                      this._table[start] = ch;
                      start += increment;
                  }
              }
              else {
                  var overflowBits = len - this._tableBits;
                  var codeBitMask = 1 << this._tableBits;
                  var index = start & ((1 << this._tableBits) - 1);
                  var array = this._table;
                  do {
                      var value = array[index];
                      if (value == 0) {
                          array[index] = -avail;
                          value = -avail;
                          avail++;
                      }
                      if (value > 0) {
                          throw "InvalidHuffmanData";
                      }
                      if ((start & codeBitMask) == 0) {
                          array = this._left;
                      }
                      else {
                          array = this._right;
                      }
                      index = -value;
                      codeBitMask <<= 1;
                      overflowBits--;
                  } while (overflowBits != 0);
                  array[index] = ch;
              }
          }
      }
  }
  \<close>
  The three arrays and \<open>avail\<close> are the state of the loops; the variable \<open>array\<close> aliases
  one of the three arrays and is modelled by its name.
\<close>

record tables =
  tbl :: Uint8Array
  lft :: Uint8Array
  rgt :: Uint8Array
  avail :: int

datatype array_ref = Table | Left | Right

fun array_get :: "tables \<Rightarrow> array_ref \<Rightarrow> int \<Rightarrow> int option" where
  "array_get t Table i = u8_get (tbl t) i"
| "array_get t Left i = u8_get (lft t) i"
| "array_get t Right i = u8_get (rgt t) i"

fun array_set :: "tables \<Rightarrow> array_ref \<Rightarrow> int \<Rightarrow> int \<Rightarrow> tables" where
  "array_set t Table i v = t\<lparr>tbl := u8_set (tbl t) i v\<rparr>"
| "array_set t Left i v = t\<lparr>lft := u8_set (lft t) i v\<rparr>"
| "array_set t Right i v = t\<lparr>rgt := u8_set (rgt t) i v\<rparr>"

function short_loop :: "int \<Rightarrow> int \<Rightarrow> int \<Rightarrow> int \<Rightarrow> int \<Rightarrow> Uint8Array \<Rightarrow> Uint8Array" where
  "short_loop ch increment locs j start t =
     (if j < locs
      then short_loop ch increment locs (j + 1) (start + increment) (u8_set t start ch)
      else t)"
  by pat_completeness auto
termination
  by (relation "measure (\<lambda>(ch, increment, locs, j, start, t). nat (locs - j))") auto

declare short_loop.simps [simp del]

text \<open>
  The \<open>do ... while (overflowBits != 0)\<close> loop is entered with
  \<open>overflowBits = len - tableBits \<ge> 1\<close> only; the model counts the iterations still to run in
  a \<open>nat\<close>. In the branch \<open>value == 0\<close> the local \<open>value\<close> becomes \<open>-avail\<close>, which the next
  test and \<open>index = -value\<close> then use. A read of \<open>array[index]\<close> outside the array ends the
  model's run.
\<close>

fun long_loop :: "int \<Rightarrow> int \<Rightarrow> int \<Rightarrow> nat \<Rightarrow> array_ref \<Rightarrow> int \<Rightarrow> tables \<Rightarrow> error + tables" where
  "long_loop ch start codeBitMask 0 array index t = Inr (array_set t array index ch)"
| "long_loop ch start codeBitMask (Suc overflowBits) array index t =
     (case array_get t array index of
        None \<Rightarrow> Inl Undefined_read
      | Some v \<Rightarrow>
          (if v = 0
           then (if - avail t > 0 then Inl InvalidHuffmanData
                 else long_loop ch start (js_shl codeBitMask 1) overflowBits
                        (if js_and start codeBitMask = 0 then Left else Right) (- (- avail t))
                        ((array_set t array index (- avail t))\<lparr>avail := avail t + 1\<rparr>))
           else if v > 0 then Inl InvalidHuffmanData
           else long_loop ch start (js_shl codeBitMask 1) overflowBits
                  (if js_and start codeBitMask = 0 then Left else Right) (- v) t))"

fun CreateTable_loop :: "int \<Rightarrow> Uint8Array \<Rightarrow> int list \<Rightarrow> int \<Rightarrow> tables \<Rightarrow> error + tables" where
  "CreateTable_loop tBits codeArray [] ch t = Inr t"
| "CreateTable_loop tBits codeArray (len # rest) ch t =
     (if len > 0
      then (case u8_get codeArray ch of
              None \<Rightarrow> Inl Undefined_read
            | Some start \<Rightarrow>
                (if len \<le> tBits
                 then (if start \<ge> js_shl 1 len then Inl InvalidHuffmanData
                       else CreateTable_loop tBits codeArray rest (ch + 1)
                              (t\<lparr>tbl := short_loop ch (js_shl 1 len) (js_shl 1 (tBits - len)) 0
                                            start (tbl t)\<rparr>))
                 else (case long_loop ch start (js_shl 1 tBits) (nat (len - tBits)) Table
                              (js_and start (js_shl 1 tBits - 1)) t of
                         Inl e \<Rightarrow> Inl e
                       | Inr t' \<Rightarrow> CreateTable_loop tBits codeArray rest (ch + 1) t')))
      else CreateTable_loop tBits codeArray rest (ch + 1) t)"

definition CreateTable :: "int \<Rightarrow> int list \<Rightarrow> error + tables" where
  "CreateTable tBits cl =
     CreateTable_loop tBits (CalculateHuffmanCode cl) cl 0
       \<lparr>tbl = Uint8Array_new (nat (js_shl 1 tBits)),
        lft = Uint8Array_new (2 * length cl),
        rgt = Uint8Array_new (2 * length cl),
        avail = int (length cl)\<rparr>"

text \<open>
  \<^verbatim>\<open>
  constructor(codeLengths: Uint8Array) {
      this._codeLengthArray = codeLengths;
      for (var length in codeLengths) {
          this._maxCodeLength = Math.max(length, this._maxCodeLength);
      }
      if (this._codeLengthArray.length == HuffmanTree.MaxLiteralTreeElements) {
          this._tableBits = 9;
          this._tableMask = 0x1FF;
      }
      else {
          this._tableBits = 7;
          this._tableMask = 0x7F;
      }
      this.CreateTable();
  }
  \<close>
\<close>

function maxCodeLength_loop :: "int \<Rightarrow> int \<Rightarrow> int \<Rightarrow> int" where
  "maxCodeLength_loop n len m =
     (if len < n then maxCodeLength_loop n (len + 1) (max len m) else m)"
  by pat_completeness auto
termination
  by (relation "measure (\<lambda>(n, len, m). nat (n - len))") auto

declare maxCodeLength_loop.simps [simp del]

definition HuffmanTree_new :: "int list \<Rightarrow> error + HuffmanTree" where
  "HuffmanTree_new codeLengths =
     (case CreateTable (if length codeLengths = MaxLiteralTreeElements then 9 else 7) codeLengths of
        Inl e \<Rightarrow> Inl e
      | Inr t \<Rightarrow>
          Inr \<lparr>tableBits = (if length codeLengths = MaxLiteralTreeElements then 9 else 7),
               table = tbl t, left = lft t, right = rgt t,
               codeLengthArray = codeLengths,
               tableMask = (if length codeLengths = MaxLiteralTreeElements then 511 else 127),
               maxCodeLength = maxCodeLength_loop (int (length codeLengths)) 0 0\<rparr>)"

text \<open>
  \<open>GetStaticLiteralTreeLength\<close> fills a \<open>Uint8Array(288)\<close> with 8 at 0..143, 9 at 144..255,
  7 at 256..279 and 8 at 280..287; \<open>GetStaticDistanceTreeLength\<close> fills a \<open>Uint8Array(32)\<close>
  with 5. The two static trees are built when the module is loaded.
\<close>

definition GetStaticLiteralTreeLength :: "int list" where
  "GetStaticLiteralTreeLength = replicate 144 8 @ replicate 112 9 @ replicate 24 7 @ replicate 8 8"

definition GetStaticDistanceTreeLength :: "int list" where
  "GetStaticDistanceTreeLength = replicate MaxDistTreeElements 5"

definition StaticLiteralLengthTree :: "error + HuffmanTree" where
  "StaticLiteralLengthTree = HuffmanTree_new GetStaticLiteralTreeLength"

definition StaticDistanceTree :: "error + HuffmanTree" where
  "StaticDistanceTree = HuffmanTree_new GetStaticDistanceTreeLength"

section \<open>HuffmanTree: decoding one symbol\<close>

text \<open>
  \<^verbatim>\<open>
  public GetNextSymbol(input: InputBuffer): number {
      var bitBuffer = input.TryGetBits(this._maxCodeLength);
      var symbol = this._table[bitBuffer & this._tableMask];
      if (symbol < 0) {
          var mask = 1 << this._tableBits;
          do {
              symbol = -symbol;
              if ((bitBuffer & mask) == 0)
                  symbol = this._left[symbol];
              else
                  symbol = this._right[symbol];
              mask <<= 1;
          } while (symbol < 0);
      }
      var codeLength = this._codeLengthArray[symbol];
      if (codeLength > input.AvailableBits) {
          throw "EndOfStreamException()";
      }
      input.SkipBits(codeLength);
      return symbol;
  }
  \<close>
  The three arrays are \<open>Uint8Array\<close>s, so every value read from them is in \<open>0 .. 255\<close>.
\<close>

function GetNextSymbol_walk :: "HuffmanTree \<Rightarrow> int \<Rightarrow> int \<Rightarrow> int \<Rightarrow> error + int" where
  "GetNextSymbol_walk t bitBuf msk symbol =
     (case u8_get (if js_and bitBuf msk = 0 then left t else right t) (- symbol) of
        None \<Rightarrow> Inl Undefined_read
      | Some symbol' \<Rightarrow>
          (if symbol' < 0 then GetNextSymbol_walk t bitBuf (js_shl msk 1) symbol'
           else Inr symbol'))"
  by pat_completeness auto
termination
proof (relation "{}")
  show "wf {}" by simp
next
  fix t :: HuffmanTree and bitBuf msk symbol x2 :: int
  assume "u8_get (if js_and bitBuf msk = 0 then left t else right t) (- symbol) = Some x2"
    and "x2 < 0"
  then have False
    by (auto simp add: u8_get_def split: if_splits)
  then show "((t, bitBuf, js_shl msk 1, x2), t, bitBuf, msk, symbol) \<in> {}" ..
qed

declare GetNextSymbol_walk.simps [simp del]

definition GetNextSymbol :: "HuffmanTree \<Rightarrow> InputBuffer \<Rightarrow> error + (int \<times> InputBuffer)" where
  "GetNextSymbol t input =
     (case TryGetBits (maxCodeLength t) input of
        Inl e \<Rightarrow> Inl e
      | Inr (bitBuf, input1) \<Rightarrow>
          (case u8_get (table t) (js_and bitBuf (tableMask t)) of
             None \<Rightarrow> Inl Undefined_read
           | Some symbol0 \<Rightarrow>
               (case (if symbol0 < 0
                      then GetNextSymbol_walk t bitBuf (js_shl 1 (tableBits t)) symbol0
                      else Inr symbol0) of
                  Inl e \<Rightarrow> Inl e
                | Inr symbol \<Rightarrow>
                    (case table_get (codeLengthArray t) symbol of
                       None \<Rightarrow> Inl Undefined_read
                     | Some codeLength \<Rightarrow>
                         (if codeLength > AvailableBits input1 then Inl EndOfStreamException
                          else Inr (symbol, SkipBits codeLength input1))))))"

section \<open>Inflate: the engine\<close>

text \<open>
  Class \<open>Inflate\<close> is the source file \<open>src/unnamed/part_002\<close>.

  Plain JavaScript arrays (\<open>_window\<close>, \<open>_codeList\<close>, \<open>_codeLengthTreeCodeLength\<close>) are created
  with \<open>new Array(n)\<close>, which allocates no element: an index never assigned reads
  \<open>undefined\<close>. The model keeps such an array as the list of its assignments, newest first;
  a read takes the newest assignment to the index.
\<close>

type_synonym Array = "(int \<times> int) list"

definition Array_new :: Array where
  "Array_new = []"

definition Array_get :: "Array \<Rightarrow> int \<Rightarrow> int option" where
  "Array_get a i = map_of a i"

definition Array_set :: "Array \<Rightarrow> int \<Rightarrow> int \<Rightarrow> Array" where
  "Array_set a i v = (i, v) # a"

text \<open>
  \<open>a.slice(from, to)\<close>. The engine slices \<open>_codeList\<close> only, whose length is 320, up to
  \<open>(GetBits(5) + 257) + (GetBits(5) + 1) \<le> 320\<close>: the clamp of \<open>to\<close> to the length never applies.
\<close>

definition slice :: "Array \<Rightarrow> int \<Rightarrow> int \<Rightarrow> int list option" where
  "slice a from to = those (map (Array_get a) [from..to - 1])"

text \<open>
  The only callback the sources ever pass as \<open>verify\<close> is the closure that class
  \<open>ZLibInflate\<close> creates; it is modelled by name and applied by \<open>ZLibInflate_verify\<close> below.

  \<open>_iterator\<close> and \<open>_input._iterator\<close> are the same object; the model keeps it once, inside
  \<open>input\<close>. The fields \<open>_end_of_block_code_seen\<close>, \<open>_bfinal\<close> and \<open>_isDynamic\<close> start
  undeclared and are assigned before they are read; the trees start \<open>undefined\<close> (\<open>None\<close>).
\<close>

datatype callback = ZLibInflate_callback

abbreviation BASE :: int where "BASE \<equiv> 65521"
abbreviation WindowSize :: int where "WindowSize \<equiv> 32768"
abbreviation WindowMask :: int where "WindowMask \<equiv> 32767"

text \<open>
  \<^verbatim>\<open>
  enum State {
      ReadingUncompressed = 0,// Passing through uncompressed block
      ReadingStatic = 1,      // About to read static block
      ReadingDynamic = 2,     // About to read dynamic header
      UnknownBlockType = 3,   // Error
      DecodingBlock,          // Decodvar compressed block
      ReadingFinalBit,        // About to read final bit
      ReadingBlockType,       // About to read blockType bits
      Done                    // Finished
  }
  \<close>
  An enum member is its number; \<open><State>this._input.GetBits(2)\<close> stores the number read.
\<close>

definition ReadingUncompressed :: int where "ReadingUncompressed = 0"
definition ReadingStatic :: int where "ReadingStatic = 1"
definition ReadingDynamic :: int where "ReadingDynamic = 2"
definition UnknownBlockType :: int where "UnknownBlockType = 3"
definition DecodingBlock :: int where "DecodingBlock = 4"
definition ReadingFinalBit :: int where "ReadingFinalBit = 5"
definition ReadingBlockType :: int where "ReadingBlockType = 6"
definition Done :: int where "Done = 7"

lemmas State_defs =
  ReadingUncompressed_def ReadingStatic_def ReadingDynamic_def UnknownBlockType_def
  DecodingBlock_def ReadingFinalBit_def ReadingBlockType_def Done_def

record Inflate =
  s1 :: int
  s2 :: int
  literalLengthTree :: "HuffmanTree option"
  distanceTree :: "HuffmanTree option"
  end_of_block_code_seen :: bool
  bfinal :: int
  isDynamic :: bool
  state :: int
  input :: InputBuffer
  end_pos :: int
  current :: int
  window :: Array
  lengthDecompressed :: int
  lengthUncompressed :: int
  codeList :: Array
  codeLengthTreeCodeLength :: Array
  verifyAdler :: "callback option"

definition s_extraLengthBits :: "int list" where
  "s_extraLengthBits = [0, 0, 0, 0, 0, 0, 0, 0, 1, 1, 1, 1, 2, 2,
        2, 2, 3, 3, 3, 3, 4, 4, 4, 4, 5, 5, 5, 5, 0]"

definition s_lengthBase :: "int list" where
  "s_lengthBase = [3, 4, 5, 6, 7, 8, 9, 10, 11, 13,
        15, 17, 19, 23, 27, 31, 35, 43, 51, 59,
        67, 83, 99, 115, 131, 163, 195, 227, 258]"

definition s_distanceBasePosition :: "int list" where
  "s_distanceBasePosition = [1, 2, 3, 4, 5, 7, 9, 13, 17, 25, 33, 49, 65,
        97, 129, 193, 257, 385, 513, 769, 1025, 1537,
        2049, 3073, 4097, 6145, 8193, 12289, 16385,
        24577, 0, 0]"

definition s_codeOrder :: "int list" where
  "s_codeOrder = [16, 17, 18, 0, 8, 7, 9, 6, 10, 5,
        11, 4, 12, 3, 13, 2, 14, 1, 15]"

definition s_staticDistanceTreeTable :: "int list" where
  "s_staticDistanceTreeTable = [
        0x00, 0x10, 0x08, 0x18, 0x04, 0x14, 0x0c, 0x1c, 0x02, 0x12, 0x0a, 0x1a,
        0x06, 0x16, 0x0e, 0x1e, 0x01, 0x11, 0x09, 0x19, 0x05, 0x15, 0x0d, 0x1d,
        0x03, 0x13, 0x0b, 0x1b, 0x07, 0x17, 0x0f, 0x1f]"

definition Inflate_new :: "producer \<Rightarrow> callback option \<Rightarrow> Inflate" where
  "Inflate_new it verify =
     \<lparr>s1 = 1, s2 = 0, literalLengthTree = None, distanceTree = None,
      end_of_block_code_seen = False, bfinal = 0, isDynamic = False,
      state = ReadingFinalBit, input = InputBuffer_new it,
      end_pos = 0, current = 0, window = Array_new,
      lengthDecompressed = 0, lengthUncompressed = 0,
      codeList = Array_new, codeLengthTreeCodeLength = Array_new,
      verifyAdler = verify\<rparr>"

text \<open>
  \<^verbatim>\<open>
  public Write(b: number) {
      this._window[this._end++] = b;
      this._end &= WindowMask;
      this._lengthDecompressed++;
      this.s1 += b;
      this.s2 += this.s1;
  }
  \<close>
\<close>

definition Write :: "int \<Rightarrow> Inflate \<Rightarrow> Inflate" where
  "Write b s =
     s\<lparr>window := Array_set (window s) (end_pos s) b,
       end_pos := js_and (end_pos s + 1) WindowMask,
       lengthDecompressed := lengthDecompressed s + 1,
       s1 := s1 s + b,
       s2 := s2 s + (s1 s + b)\<rparr>"

text \<open>
  \<^verbatim>\<open>
  public WriteLengthDistance(length: number, distance: number) {
      this._lengthDecompressed += length;
      var copyStart = (this._end - distance) & WindowMask;
      var border = WindowSize - length;
      if (copyStart <= border && this._end < border) {
          while (length-- > 0) {
              var source = this._window[copyStart++];
              this._window[this._end++] = source;
              this.s1 += source;
              this.s2 += this.s1;
          }
      }
      else { // copy byte by byte
          while (length-- > 0) {
              var source = this._window[copyStart++];
              this._window[this._end++] = source;
              this._end &= WindowMask;
              copyStart &= WindowMask;
              this.s1 += source;
              this.s2 += this.s1;
          }
      }
  }
  \<close>
  A window slot never written holds no number: the copy ends the model's run there.
\<close>

function copy_straight :: "int \<Rightarrow> int \<Rightarrow> Inflate \<Rightarrow> error + Inflate" where
  "copy_straight len copyStart s =
     (if len > 0
      then (case Array_get (window s) copyStart of
              None \<Rightarrow> Inl Undefined_read
            | Some source \<Rightarrow>
                copy_straight (len - 1) (copyStart + 1)
                  (s\<lparr>window := Array_set (window s) (end_pos s) source,
                     end_pos := end_pos s + 1,
                     s1 := s1 s + source,
                     s2 := s2 s + (s1 s + source)\<rparr>))
      else Inr s)"
  by pat_completeness auto
termination
  by (relation "measure (\<lambda>(len, copyStart, s). nat len)") auto

declare copy_straight.simps [simp del]

function copy_wrapping :: "int \<Rightarrow> int \<Rightarrow> Inflate \<Rightarrow> error + Inflate" where
  "copy_wrapping len copyStart s =
     (if len > 0
      then (case Array_get (window s) copyStart of
              None \<Rightarrow> Inl Undefined_read
            | Some source \<Rightarrow>
                copy_wrapping (len - 1) (js_and (copyStart + 1) WindowMask)
                  (s\<lparr>window := Array_set (window s) (end_pos s) source,
                     end_pos := js_and (end_pos s + 1) WindowMask,
                     s1 := s1 s + source,
                     s2 := s2 s + (s1 s + source)\<rparr>))
      else Inr s)"
  by pat_completeness auto
termination
  by (relation "measure (\<lambda>(len, copyStart, s). nat len)") auto

declare copy_wrapping.simps [simp del]

definition WriteLengthDistance :: "int \<Rightarrow> int \<Rightarrow> Inflate \<Rightarrow> error + Inflate" where
  "WriteLengthDistance len distance s =
     (if js_and (end_pos s - distance) WindowMask \<le> WindowSize - len \<and> end_pos s < WindowSize - len
      then copy_straight len (js_and (end_pos s - distance) WindowMask)
             (s\<lparr>lengthDecompressed := lengthDecompressed s + len\<rparr>)
      else copy_wrapping len (js_and (end_pos s - distance) WindowMask)
             (s\<lparr>lengthDecompressed := lengthDecompressed s + len\<rparr>))"

text \<open>
  \<^verbatim>\<open>
  private DecodeUncompressedBlock(): boolean {
      this._input.SkipToByteBoundary();   // we must skip to a byte boundary
      this._lengthUncompressed = this._input.GetBits(8) + this._input.GetBits(8) * 256;
      var blockLengthComplement = this._input.GetBits(8) + this._input.GetBits(8) * 256;
      // make sure complement matches
      if (this._lengthUncompressed != (~blockLengthComplement)) {
          throw "InvalidBlockLength";
      }
      this._state = State.ReadingFinalBit;
      return true;
  }
  \<close>
\<close>

definition DecodeUncompressedBlock :: "Inflate \<Rightarrow> error + (bool \<times> Inflate)" where
  "DecodeUncompressedBlock s =
     (case GetBits 8 (SkipToByteBoundary (input s)) of
        Inl e \<Rightarrow> Inl e
      | Inr (len_lo, i1) \<Rightarrow>
     (case GetBits 8 i1 of
        Inl e \<Rightarrow> Inl e
      | Inr (len_hi, i2) \<Rightarrow>
     (case GetBits 8 i2 of
        Inl e \<Rightarrow> Inl e
      | Inr (nlen_lo, i3) \<Rightarrow>
     (case GetBits 8 i3 of
        Inl e \<Rightarrow> Inl e
      | Inr (nlen_hi, i4) \<Rightarrow>
          (if len_lo + len_hi * 256 \<noteq> js_not (nlen_lo + nlen_hi * 256)
           then Inl InvalidBlockLength
           else Inr (True, s\<lparr>input := i4,
                             lengthUncompressed := len_lo + len_hi * 256,
                             state := ReadingFinalBit\<rparr>))))))"

text \<open>
  \<^verbatim>\<open>
  private DecodeBlock(): boolean {
      var extraBits;
      var freeBytes = WindowSize - this._lengthDecompressed;
      while (freeBytes > 258) {
          var smbl = this._literalLengthTree.GetNextSymbol(this._input);
          if (smbl < 256) {
              this.Write(smbl);
              --freeBytes;
              continue;
          }
          if (smbl == 256) {
              this._state = State.ReadingFinalBit;
              this._end_of_block_code_seen = true;
              return true;
          }
          smbl -= 257;
          if (smbl < 8) {
              smbl += 3;
              extraBits = 0;
          }
          else if (smbl == 28) {
              smbl = 258;
              extraBits = 0;
          }
          else {
              if (smbl < 0 || smbl >= Inflate.s_extraLengthBits.length) {
                  throw "GenericInvalidData";
              }
              extraBits = Inflate.s_extraLengthBits[smbl];
          }
          var length = smbl;
          if (extraBits > 0) {
              var bits = this._input.GetBits(extraBits);
              if (length < 0 || length >= Inflate.s_lengthBase.length) {
                  throw "GenericInvalidData";
              }
              length = Inflate.s_lengthBase[length] + bits;
          }
          var distanceCode;
          if (this._isDynamic) {
              distanceCode = this._distanceTree.GetNextSymbol(this._input);
          }
          else {
              distanceCode = this._input.GetBits(5);
              if (distanceCode >= 0) {
                  distanceCode = Inflate.s_staticDistanceTreeTable[distanceCode];
              }
          }
          var offset;
          if (distanceCode > 3) {
              extraBits = (distanceCode - 2) >> 1;
              var bits = this._input.GetBits(extraBits);
              offset = Inflate.s_distanceBasePosition[distanceCode] + bits;
          }
          else {
              offset = distanceCode + 1;
          }
          this.WriteLengthDistance(length, offset);
          freeBytes -= length;
      }
      this._state = State.DecodingBlock;
      this._end_of_block_code_seen = false;
      return true;
  }
  \<close>
  The body of the loop is split where the source has its blank lines: \<open>DecodeBlock_length\<close>
  takes \<open>smbl - 257\<close> and returns \<open>length\<close>; \<open>DecodeBlock_distanceCode\<close> reads the distance
  code; \<open>DecodeBlock_offset\<close> turns it into \<open>offset\<close>. A read of \<open>s_distanceBasePosition\<close>
  past its 32 entries ends the model's run.
\<close>

definition DecodeBlock_length :: "int \<Rightarrow> Inflate \<Rightarrow> error + (int \<times> Inflate)" where
  "DecodeBlock_length smbl s =
     (if smbl < 8 then Inr (smbl + 3, s)
      else if smbl = 28 then Inr (258, s)
      else if smbl < 0 \<or> smbl \<ge> int (length s_extraLengthBits) then Inl GenericInvalidData
      else (case table_get s_extraLengthBits smbl of
              None \<Rightarrow> Inl Undefined_read
            | Some extraBits \<Rightarrow>
                (if extraBits > 0
                 then (case GetBits extraBits (input s) of
                         Inl e \<Rightarrow> Inl e
                       | Inr (bits, inp) \<Rightarrow>
                           (if smbl < 0 \<or> smbl \<ge> int (length s_lengthBase)
                            then Inl GenericInvalidData
                            else (case table_get s_lengthBase smbl of
                                    None \<Rightarrow> Inl Undefined_read
                                  | Some base \<Rightarrow> Inr (base + bits, s\<lparr>input := inp\<rparr>))))
                 else Inr (smbl, s))))"

definition DecodeBlock_distanceCode :: "Inflate \<Rightarrow> error + (int \<times> Inflate)" where
  "DecodeBlock_distanceCode s =
     (if isDynamic s
      then (case distanceTree s of
              None \<Rightarrow> Inl TypeError
            | Some t \<Rightarrow>
                (case GetNextSymbol t (input s) of
                   Inl e \<Rightarrow> Inl e
                 | Inr (distanceCode, inp) \<Rightarrow> Inr (distanceCode, s\<lparr>input := inp\<rparr>)))
      else (case GetBits 5 (input s) of
              Inl e \<Rightarrow> Inl e
            | Inr (distanceCode, inp) \<Rightarrow>
                (if distanceCode \<ge> 0
                 then (case table_get s_staticDistanceTreeTable distanceCode of
                         None \<Rightarrow> Inl Undefined_read
                       | Some d \<Rightarrow> Inr (d, s\<lparr>input := inp\<rparr>))
                 else Inr (distanceCode, s\<lparr>input := inp\<rparr>))))"

definition DecodeBlock_offset :: "int \<Rightarrow> Inflate \<Rightarrow> error + (int \<times> Inflate)" where
  "DecodeBlock_offset distanceCode s =
     (if distanceCode > 3
      then (case GetBits (js_sar (distanceCode - 2) 1) (input s) of
              Inl e \<Rightarrow> Inl e
            | Inr (bits, inp) \<Rightarrow>
                (case table_get s_distanceBasePosition distanceCode of
                   None \<Rightarrow> Inl Undefined_read
                 | Some base \<Rightarrow> Inr (base + bits, s\<lparr>input := inp\<rparr>)))
      else Inr (distanceCode + 1, s))"

definition DecodeBlock_distance :: "Inflate \<Rightarrow> error + (int \<times> Inflate)" where
  "DecodeBlock_distance s =
     (case DecodeBlock_distanceCode s of
        Inl e \<Rightarrow> Inl e
      | Inr (distanceCode, s') \<Rightarrow> DecodeBlock_offset distanceCode s')"

function DecodeBlock_loop :: "int \<Rightarrow> Inflate \<Rightarrow> error + (bool \<times> Inflate)" where
  "DecodeBlock_loop freeBytes s =
     (if freeBytes > 258
      then (case literalLengthTree s of
              None \<Rightarrow> Inl TypeError
            | Some t \<Rightarrow>
                (case GetNextSymbol t (input s) of
                   Inl e \<Rightarrow> Inl e
                 | Inr (smbl, inp) \<Rightarrow>
                     (if smbl < 256
                      then DecodeBlock_loop (freeBytes - 1) (Write smbl (s\<lparr>input := inp\<rparr>))
                      else if smbl = 256
                      then Inr (True, s\<lparr>input := inp, state := ReadingFinalBit,
                                        end_of_block_code_seen := True\<rparr>)
                      else (case DecodeBlock_length (smbl - 257) (s\<lparr>input := inp\<rparr>) of
                              Inl e \<Rightarrow> Inl e
                            | Inr (len, sa) \<Rightarrow>
                                (case DecodeBlock_distance sa of
                                   Inl e \<Rightarrow> Inl e
                                 | Inr (offset, sb) \<Rightarrow>
                                     (case WriteLengthDistance len offset sb of
                                        Inl e \<Rightarrow> Inl e
                                      | Inr sc \<Rightarrow> DecodeBlock_loop (freeBytes - len) sc))))))
      else Inr (True, s\<lparr>state := DecodingBlock, end_of_block_code_seen := False\<rparr>))"
  by pat_completeness auto
termination
proof (relation "measure (\<lambda>(freeBytes, s). nat (freeBytes - 258))")
  show "wf (measure (\<lambda>(freeBytes, s). nat (freeBytes - 258)))" by simp
next
  fix freeBytes :: int and s :: Inflate and smbl :: int and inp :: InputBuffer
  assume "258 < freeBytes"
  then show "((freeBytes - 1, Write smbl (s\<lparr>input := inp\<rparr>)), freeBytes, s)
        \<in> measure (\<lambda>(freeBytes, s). nat (freeBytes - 258))"
    by simp
next
  fix freeBytes :: int and s :: Inflate and smbl len :: int and inp :: InputBuffer
    and sa sc :: Inflate and ba :: "int \<times> Inflate"
  assume free: "258 < freeBytes" and lit: "\<not> smbl < 256" "smbl \<noteq> 256"
    and ba: "DecodeBlock_length (smbl - 257) (s\<lparr>input := inp\<rparr>) = Inr ba" "(len, sa) = ba"
  have bits_nonneg: "0 \<le> bits"
    if "GetBits extraBits i = Inr (bits, i')" "0 < extraBits" "extraBits \<le> 5" for extraBits i bits i'
  proof -
    have "extraBits \<in> {1, 2, 3, 4, 5}" using that by auto
    then have "0 \<le> ToInt32 (js_shl 1 extraBits - 1)"
      by (auto simp add: js_shl_def ToInt32_def)
    then have "0 \<le> js_and x (js_shl 1 extraBits - 1)" for x
      by (simp add: js_and_def)
    with that(1) show ?thesis
      by (auto simp add: GetBits_def split: sum.splits)
  qed
  have mem: "nth_opt xs n = Some x \<Longrightarrow> x \<in> set xs" for xs :: "int list" and n x
    by (induction xs n rule: nth_opt.induct) auto
  have "\<forall>x \<in> set s_extraLengthBits. x \<le> 5" by (simp add: s_extraLengthBits_def)
  then have extra_le: "table_get s_extraLengthBits k = Some e \<Longrightarrow> e \<le> 5" for k e
    using mem[of s_extraLengthBits "nat k" e] by (auto simp add: table_get_def split: if_splits)
  have "\<forall>x \<in> set s_lengthBase. 3 \<le> x" by (simp add: s_lengthBase_def)
  then have base_ge: "table_get s_lengthBase k = Some b \<Longrightarrow> 3 \<le> b" for k b
    using mem[of s_lengthBase "nat k" b] by (auto simp add: table_get_def split: if_splits)
  have "DecodeBlock_length (smbl - 257) (s\<lparr>input := inp\<rparr>) = Inr (len, sa)"
    using ba by simp
  then have "0 < len"
    using lit bits_nonneg extra_le base_ge
    by (fastforce simp add: DecodeBlock_length_def split: if_splits option.splits sum.splits)
  with free show "((freeBytes - len, sc), freeBytes, s) \<in> measure (\<lambda>(freeBytes, s). nat (freeBytes - 258))"
    by simp
qed


declare DecodeBlock_loop.simps [simp del]

definition DecodeBlock :: "Inflate \<Rightarrow> error + (bool \<times> Inflate)" where
  "DecodeBlock s = DecodeBlock_loop (WindowSize - lengthDecompressed s) s"

text \<open>
  \<^verbatim>\<open>
  private DecodeDynamicBlockHeader(): boolean {
      var loopCounter = 0;
      var literalLengthCodeCount = this._input.GetBits(5);
      var distanceCodeCount = this._input.GetBits(5);
      var codeLengthCodeCount = this._input.GetBits(4);
      literalLengthCodeCount += 257;
      distanceCodeCount += 1;
      codeLengthCodeCount += 4;
      while (loopCounter < codeLengthCodeCount) {
          var bits = this._input.GetBits(3);
          this._codeLengthTreeCodeLength[Inflate.s_codeOrder[loopCounter]] = bits;
          ++loopCounter;
      }
      for (var i = codeLengthCodeCount; i < Inflate.s_codeOrder.length; i++) {
          this._codeLengthTreeCodeLength[Inflate.s_codeOrder[i]] = 0;
      }
      var codeLengthTree = new HuffmanTree(this._codeLengthTreeCodeLength);
      var codeArraySize = literalLengthCodeCount + distanceCodeCount;
      loopCounter = 0;
      while (loopCounter < codeArraySize) {
          var repeatCount;
          var lengthCode = codeLengthTree.GetNextSymbol(this._input);
          switch (lengthCode) {
              case 18:
                  repeatCount = this._input.GetBits(7) + 11;
                  if (loopCounter + repeatCount > codeArraySize) {
                      throw "Invalid Data Exception";
                  }
                  for (var j = 0; j < repeatCount; j++) {
                      this._codeList[loopCounter++] = 0;
                  }
                  break;
              case 17:
                  repeatCount = this._input.GetBits(3) + 3;
                  ...                                   // as case 18
              case 16:
                  if (loopCounter == 0) {
                      throw "Invalid Data Exception";
                  }
                  var previousCode = this._codeList[loopCounter - 1];
                  repeatCount = this._input.GetBits(2) + 3;
                  ...                                   // as case 18, storing previousCode
              default:
                  this._codeList[loopCounter++] = lengthCode;
                  break;
          }
      }
      var literalTreeCodeLength = this._codeList.slice(0, literalLengthCodeCount);
      for (var l = literalTreeCodeLength.length; l < HuffmanTree.MaxLiteralTreeElements; l++) {
          literalTreeCodeLength.push(0);
      }
      var distanceTreeCodeLength = this._codeList.slice(literalLengthCodeCount,
                                         literalLengthCodeCount + distanceCodeCount);
      for (var d = distanceTreeCodeLength.length; d < HuffmanTree.MaxDistTreeElements; d++) {
          distanceTreeCodeLength.push(0);
      }
      if (literalTreeCodeLength[HuffmanTree.EndOfBlockCode] == 0) {
          throw "Invalid Data Exception";
      }
      this._literalLengthTree = new HuffmanTree(literalTreeCodeLength);
      this._distanceTree = new HuffmanTree(distanceTreeCodeLength);
      return true;
  }
  \<close>
  \<open>repeat_codes nbits base v\<close> is the shared shape of the three repeat cases; \<open>codeList_step\<close>
  is one turn of the second \<open>while\<close> loop and returns by how much \<open>loopCounter\<close> grew.
\<close>

function codeLengthCode_loop :: "int \<Rightarrow> int \<Rightarrow> Inflate \<Rightarrow> error + Inflate" where
  "codeLengthCode_loop codeLengthCodeCount loopCounter s =
     (if loopCounter < codeLengthCodeCount
      then (case GetBits 3 (input s) of
              Inl e \<Rightarrow> Inl e
            | Inr (bits, inp) \<Rightarrow>
                (case table_get s_codeOrder loopCounter of
                   None \<Rightarrow> Inl Undefined_read
                 | Some k \<Rightarrow>
                     codeLengthCode_loop codeLengthCodeCount (loopCounter + 1)
                       (s\<lparr>input := inp,
                          codeLengthTreeCodeLength := Array_set (codeLengthTreeCodeLength s) k bits\<rparr>)))
      else Inr s)"
  by pat_completeness auto
termination
  by (relation "measure (\<lambda>(codeLengthCodeCount, loopCounter, s). nat (codeLengthCodeCount - loopCounter))") auto

declare codeLengthCode_loop.simps [simp del]

function codeOrder_zero_loop :: "int \<Rightarrow> Inflate \<Rightarrow> error + Inflate" where
  "codeOrder_zero_loop i s =
     (if i < int (length s_codeOrder)
      then (case table_get s_codeOrder i of
              None \<Rightarrow> Inl Undefined_read
            | Some k \<Rightarrow>
                codeOrder_zero_loop (i + 1)
                  (s\<lparr>codeLengthTreeCodeLength := Array_set (codeLengthTreeCodeLength s) k 0\<rparr>))
      else Inr s)"
  by pat_completeness auto
termination
  by (relation "measure (\<lambda>(i, s). nat (int (length s_codeOrder) - i))") auto

declare codeOrder_zero_loop.simps [simp del]

function codeList_fill :: "int \<Rightarrow> int \<Rightarrow> int \<Rightarrow> int \<Rightarrow> Inflate \<Rightarrow> Inflate" where
  "codeList_fill repeatCount j loopCounter v s =
     (if j < repeatCount
      then codeList_fill repeatCount (j + 1) (loopCounter + 1) v
             (s\<lparr>codeList := Array_set (codeList s) loopCounter v\<rparr>)
      else s)"
  by pat_completeness auto
termination
  by (relation "measure (\<lambda>(repeatCount, j, loopCounter, v, s). nat (repeatCount - j))") auto

declare codeList_fill.simps [simp del]

definition repeat_codes :: "int \<Rightarrow> int \<Rightarrow> int \<Rightarrow> int \<Rightarrow> int \<Rightarrow> Inflate
    \<Rightarrow> error + (int \<times> Inflate)" where
  "repeat_codes nbits base v codeArraySize loopCounter s =
     (case GetBits nbits (input s) of
        Inl e \<Rightarrow> Inl e
      | Inr (bits, inp) \<Rightarrow>
          (if loopCounter + (bits + base) > codeArraySize then Inl Invalid_Data_Exception
           else Inr (bits + base, codeList_fill (bits + base) 0 loopCounter v (s\<lparr>input := inp\<rparr>))))"

definition codeList_step :: "HuffmanTree \<Rightarrow> int \<Rightarrow> int \<Rightarrow> Inflate \<Rightarrow> error + (int \<times> Inflate)" where
  "codeList_step codeLengthTree codeArraySize loopCounter s =
     (case GetNextSymbol codeLengthTree (input s) of
        Inl e \<Rightarrow> Inl e
      | Inr (lengthCode, inp) \<Rightarrow>
          (if lengthCode = 18 then repeat_codes 7 11 0 codeArraySize loopCounter (s\<lparr>input := inp\<rparr>)
           else if lengthCode = 17 then repeat_codes 3 3 0 codeArraySize loopCounter (s\<lparr>input := inp\<rparr>)
           else if lengthCode = 16
           then (if loopCounter = 0 then Inl Invalid_Data_Exception
                 else (case Array_get (codeList s) (loopCounter - 1) of
                         None \<Rightarrow> Inl Undefined_read
                       | Some previousCode \<Rightarrow>
                           repeat_codes 2 3 previousCode codeArraySize loopCounter (s\<lparr>input := inp\<rparr>)))
           else Inr (1, s\<lparr>input := inp, codeList := Array_set (codeList s) loopCounter lengthCode\<rparr>)))"

function codeList_loop :: "HuffmanTree \<Rightarrow> int \<Rightarrow> int \<Rightarrow> Inflate \<Rightarrow> error + Inflate" where
  "codeList_loop codeLengthTree codeArraySize loopCounter s =
     (if loopCounter < codeArraySize
      then (case codeList_step codeLengthTree codeArraySize loopCounter s of
              Inl e \<Rightarrow> Inl e
            | Inr (n, s') \<Rightarrow> codeList_loop codeLengthTree codeArraySize (loopCounter + n) s')
      else Inr s)"
  by pat_completeness auto
termination
proof (relation "measure (\<lambda>(codeLengthTree, codeArraySize, loopCounter, s). nat (codeArraySize - loopCounter))")
  show "wf (measure (\<lambda>(codeLengthTree, codeArraySize, loopCounter, s). nat (codeArraySize - loopCounter)))"
    by simp
next
  fix codeLengthTree :: HuffmanTree and codeArraySize loopCounter n :: int and s s' :: Inflate
    and b :: "int \<times> Inflate"
  assume lt: "loopCounter < codeArraySize"
    and step: "codeList_step codeLengthTree codeArraySize loopCounter s = Inr b" "(n, s') = b"
  have bits_nonneg: "0 \<le> bits"
    if "GetBits nbits i = Inr (bits, i')" "nbits \<in> {2, 3, 7}" for nbits i bits i'
  proof -
    have "0 \<le> ToInt32 (js_shl 1 nbits - 1)"
      using that(2) by (auto simp add: js_shl_def ToInt32_def)
    then have "0 \<le> js_and x (js_shl 1 nbits - 1)" for x
      by (simp add: js_and_def)
    with that(1) show ?thesis
      by (auto simp add: GetBits_def split: sum.splits)
  qed
  have rep: "0 < m"
    if "repeat_codes nbits base v codeArraySize loopCounter t = Inr (m, t')" "nbits \<in> {2, 3, 7}" "0 < base"
    for nbits base v t m t'
    using that bits_nonneg[of nbits "input t"]
    by (fastforce simp add: repeat_codes_def split: sum.splits if_splits)
  have "codeList_step codeLengthTree codeArraySize loopCounter s = Inr (n, s')"
    using step by simp
  then have "0 < n"
    by (auto simp add: codeList_step_def split: sum.splits if_splits option.splits
          dest!: rep)
  with lt show "((codeLengthTree, codeArraySize, loopCounter + n, s'), codeLengthTree, codeArraySize, loopCounter, s)
        \<in> measure (\<lambda>(codeLengthTree, codeArraySize, loopCounter, s). nat (codeArraySize - loopCounter))"
    by simp
qed

declare codeList_loop.simps [simp del]

definition DecodeDynamicBlockHeader :: "Inflate \<Rightarrow> error + Inflate" where
  "DecodeDynamicBlockHeader s =
     (case GetBits 5 (input s) of Inl e \<Rightarrow> Inl e | Inr (hlit, i1) \<Rightarrow>
     (case GetBits 5 i1 of Inl e \<Rightarrow> Inl e | Inr (hdist, i2) \<Rightarrow>
     (case GetBits 4 i2 of Inl e \<Rightarrow> Inl e | Inr (hclen, i3) \<Rightarrow>
     (case codeLengthCode_loop (hclen + 4) 0 (s\<lparr>input := i3\<rparr>) of Inl e \<Rightarrow> Inl e | Inr sa \<Rightarrow>
     (case codeOrder_zero_loop (hclen + 4) sa of Inl e \<Rightarrow> Inl e | Inr sb \<Rightarrow>
     (case slice (codeLengthTreeCodeLength sb) 0 (int NumberOfCodeLengthTreeElements) of
        None \<Rightarrow> Inl Undefined_read | Some cltcl \<Rightarrow>
     (case HuffmanTree_new cltcl of Inl e \<Rightarrow> Inl e | Inr codeLengthTree \<Rightarrow>
     (case codeList_loop codeLengthTree ((hlit + 257) + (hdist + 1)) 0 sb of
        Inl e \<Rightarrow> Inl e | Inr sc \<Rightarrow>
     (case slice (codeList sc) 0 (hlit + 257) of None \<Rightarrow> Inl Undefined_read | Some lits \<Rightarrow>
     (case slice (codeList sc) (hlit + 257) ((hlit + 257) + (hdist + 1)) of
        None \<Rightarrow> Inl Undefined_read | Some dists \<Rightarrow>
     (case table_get (lits @ replicate (MaxLiteralTreeElements - length lits) 0) EndOfBlockCode of
        None \<Rightarrow> Inl Undefined_read
      | Some eob \<Rightarrow>
     (if eob = 0 then Inl Invalid_Data_Exception
      else
     (case HuffmanTree_new (lits @ replicate (MaxLiteralTreeElements - length lits) 0) of
        Inl e \<Rightarrow> Inl e | Inr lt \<Rightarrow>
     (case HuffmanTree_new (dists @ replicate (MaxDistTreeElements - length dists) 0) of
        Inl e \<Rightarrow> Inl e | Inr dt \<Rightarrow>
          Inr (sc\<lparr>literalLengthTree := Some lt, distanceTree := Some dt\<rparr>)))))))))))))))"

text \<open>
  \<^verbatim>\<open>
  private Decode(): boolean {
      this._end_of_block_code_seen = false;
      var result = false;
      while (true) {
          switch (this._state) {
              case State.ReadingFinalBit:
                  this._bfinal = this._input.GetBits(1);
                  this._state = State.ReadingBlockType;
              case State.ReadingBlockType:
                  this._state = <State>this._input.GetBits(2);
                  continue;
              case State.ReadingStatic:
                  this._literalLengthTree = HuffmanTree.StaticLiteralLengthTree;
                  this._distanceTree = HuffmanTree.StaticDistanceTree;
                  this._isDynamic = false;
                  this._state = State.DecodingBlock;
                  continue;
              case State.ReadingDynamic:
                  this.DecodeDynamicBlockHeader();
                  this._isDynamic = true;
              case State.DecodingBlock:
                  result = this.DecodeBlock();
                  break;
              case State.ReadingUncompressed:
                  result = this.DecodeUncompressedBlock();
                  this._end_of_block_code_seen = true;
                  break;
              default:
                  throw "Unknown Block Type";
          }
          break;
      }
      if (this._end_of_block_code_seen && (this._bfinal != 0)) {
          this._state = State.Done;
      }
      return result;
  }
  \<close>
  \<open>Decode_switch\<close> is the \<open>while (true)\<close> loop around the \<open>switch\<close>: a \<open>continue\<close> is the
  recursive call, a case without \<open>break\<close> runs on into the next one.
\<close>

function Decode_switch :: "Inflate \<Rightarrow> error + (bool \<times> Inflate)" where
  "Decode_switch s =
     (if state s = ReadingFinalBit
      then (case GetBits 1 (input s) of Inl e \<Rightarrow> Inl e | Inr (b, i1) \<Rightarrow>
           (case GetBits 2 i1 of Inl e \<Rightarrow> Inl e | Inr (t, i2) \<Rightarrow>
              Decode_switch (s\<lparr>bfinal := b, input := i2, state := t\<rparr>)))
      else if state s = ReadingBlockType
      then (case GetBits 2 (input s) of Inl e \<Rightarrow> Inl e | Inr (t, i2) \<Rightarrow>
              Decode_switch (s\<lparr>input := i2, state := t\<rparr>))
      else if state s = ReadingStatic
      then (case StaticLiteralLengthTree of Inl e \<Rightarrow> Inl e | Inr lt \<Rightarrow>
           (case StaticDistanceTree of Inl e \<Rightarrow> Inl e | Inr dt \<Rightarrow>
              Decode_switch (s\<lparr>literalLengthTree := Some lt, distanceTree := Some dt,
                               isDynamic := False, state := DecodingBlock\<rparr>)))
      else if state s = ReadingDynamic
      then (case DecodeDynamicBlockHeader s of Inl e \<Rightarrow> Inl e | Inr s' \<Rightarrow>
              DecodeBlock (s'\<lparr>isDynamic := True\<rparr>))
      else if state s = DecodingBlock then DecodeBlock s
      else if state s = ReadingUncompressed
      then (case DecodeUncompressedBlock s of Inl e \<Rightarrow> Inl e | Inr (r, s') \<Rightarrow>
              Inr (r, s'\<lparr>end_of_block_code_seen := True\<rparr>))
      else Inl Unknown_Block_Type)"
  by pat_completeness auto
termination
proof (relation "measure (\<lambda>s. if state s = ReadingFinalBit \<or> state s = ReadingBlockType then 2
                               else if state s = ReadingStatic then 1 else 0)")
  have two_bits: "0 \<le> t \<and> t \<le> 3" if "GetBits 2 i = Inr (t, i')" for i t i'
  proof -
    have "js_and x (js_shl 1 2 - 1) = ToInt32 x AND 3" for x
      by (simp add: js_and_def js_shl_def ToInt32_def)
    moreover have "0 \<le> y AND 3 \<and> y AND 3 \<le> 3" for y :: int
      by (simp add: AND_upper2')
    ultimately show ?thesis using that
      by (auto simp add: GetBits_def split: sum.splits)
  qed
  {
    fix s :: Inflate and b t :: int and i1 i2 :: InputBuffer and p q :: "int \<times> InputBuffer"
    assume "state s = ReadingFinalBit" "GetBits 2 i1 = Inr q" "(t, i2) = q"
    then show "(s\<lparr>bfinal := b, input := i2, state := t\<rparr>, s)
        \<in> measure (\<lambda>s. if state s = ReadingFinalBit \<or> state s = ReadingBlockType then 2
                               else if state s = ReadingStatic then 1 else 0)"
      using two_bits[of i1 t i2] by (auto simp add: State_defs)
  next
    fix s :: Inflate and t :: int and i2 :: InputBuffer and q :: "int \<times> InputBuffer"
    assume "state s = ReadingBlockType" "GetBits 2 (input s) = Inr q" "(t, i2) = q"
    then show "(s\<lparr>input := i2, state := t\<rparr>, s)
        \<in> measure (\<lambda>s. if state s = ReadingFinalBit \<or> state s = ReadingBlockType then 2
                               else if state s = ReadingStatic then 1 else 0)"
      using two_bits[of "input s" t i2] by (auto simp add: State_defs)
  next
    fix s :: Inflate and lt dt :: HuffmanTree
    assume "state s = ReadingStatic"
    then show "(s\<lparr>literalLengthTree := Some lt, distanceTree := Some dt,
                               isDynamic := False, state := DecodingBlock\<rparr>, s)
        \<in> measure (\<lambda>s. if state s = ReadingFinalBit \<or> state s = ReadingBlockType then 2
                               else if state s = ReadingStatic then 1 else 0)"
      by (simp add: State_defs)
  }
qed simp

declare Decode_switch.simps [simp del]

definition Decode :: "Inflate \<Rightarrow> error + (bool \<times> Inflate)" where
  "Decode s =
     (case Decode_switch (s\<lparr>end_of_block_code_seen := False\<rparr>) of
        Inl e \<Rightarrow> Inl e
      | Inr (result, s') \<Rightarrow>
          Inr (result, if end_of_block_code_seen s' \<and> bfinal s' \<noteq> 0 then s'\<lparr>state := Done\<rparr> else s'))"

section \<open>ZLibInflate: the callback\<close>

text \<open>
  Class \<open>ZLibInflate\<close> is declared, and not exported, in \<open>src/src/zlib-iterable.ts\<close>.
  \<^verbatim>\<open>
  (adler32) => {
      var need = 0;      // stream check value
      var byteSignificance = 4;
      var result: IteratorResult<number>;
      while ((0 < byteSignificance) && !(result = iterator.next()).done) {
          switch (byteSignificance) {
              case 4: need = ((result.value & 0xff) << 24) & 0xff000000; break;
              case 3: need += ((result.value & 0xff) << 16) & 0xff0000; break;
              case 2: need += ((result.value & 0xff) << 8) & 0xff00; break;
              case 1: need += (result.value & 0xff) & 0xff; break;
          }
          byteSignificance--;
      }
      if (need != adler32) {
          throw "Invalid Adler-32 checksum";
      }
  }
  \<close>
  The closure's \<open>iterator\<close> is the object the engine reads from.
\<close>

definition need_step :: "int \<Rightarrow> int \<Rightarrow> int \<Rightarrow> int" where
  "need_step byteSignificance need v =
     (if byteSignificance = 4 then js_and (js_shl (js_and v 255) 24) 4278190080
      else if byteSignificance = 3 then need + js_and (js_shl (js_and v 255) 16) 16711680
      else if byteSignificance = 2 then need + js_and (js_shl (js_and v 255) 8) 65280
      else if byteSignificance = 1 then need + js_and (js_and v 255) 255
      else need)"

function need_loop :: "int \<Rightarrow> int \<Rightarrow> producer \<Rightarrow> error + (int \<times> producer)" where
  "need_loop byteSignificance need it =
     (if 0 < byteSignificance
      then (case iterator_next it of
              Inl e \<Rightarrow> Inl e
            | Inr (None, it') \<Rightarrow> Inr (need, it')
            | Inr (Some v, it') \<Rightarrow>
                need_loop (byteSignificance - 1) (need_step byteSignificance need v) it')
      else Inr (need, it))"
  by pat_completeness auto
termination
  by (relation "measure (\<lambda>(byteSignificance, need, it). nat byteSignificance)") auto

declare need_loop.simps [simp del]

definition ZLibInflate_verify :: "int \<Rightarrow> producer \<Rightarrow> error + producer" where
  "ZLibInflate_verify adler32 it =
     (case need_loop 4 0 it of
        Inl e \<Rightarrow> Inl e
      | Inr (need, it') \<Rightarrow> if need \<noteq> adler32 then Inl Invalid_Adler32_checksum else Inr it')"

fun apply_callback :: "callback \<Rightarrow> int \<Rightarrow> producer \<Rightarrow> error + producer" where
  "apply_callback ZLibInflate_callback adler32 it = ZLibInflate_verify adler32 it"

section \<open>Inflate: next\<close>

text \<open>
  \<^verbatim>\<open>
  public next(): IteratorResult<number> {
      do {
          if (0 < this._lengthDecompressed) {
              this._current = (this._end - this._lengthDecompressed) & WindowMask;
              this._lengthDecompressed--;
              return { done: false, value: this._window[this._current] };
          }
          if (0 < this._lengthUncompressed) {
              var result: IteratorResult<number> = this._iterator.next();
              if (result.done) throw "End Of Stream Exception";
              this._current = this._end;
              this._window[this._current] = result.value;
              this._end = (this._end + 1) & WindowMask;
              this._lengthUncompressed--;
              this.s1 += result.value;
              this.s2 += this.s1;
              return result;
          }
          this.s1 %= BASE;
          this.s2 %= BASE;
      } while ((State.Done != this._state) && this.Decode());
      if (null != this._verifyAdler) {
          this._verifyAdler(((this.s2 % BASE) << 16) | (this.s1 % BASE));
      }
      this._current = -1;
      return { done: true, value: undefined };
  }
  \<close>
  A result \<open>Some v\<close> is \<open>{done: false, value: v}\<close>, \<open>None\<close> is \<open>{done: true}\<close>.
  \<open>Inflate_serve\<close>, \<open>Inflate_pass\<close> and \<open>Inflate_done\<close> are the three ways out of the
  function. Nothing in the text of the loop bounds the number of its turns, so \<open>Inflate_next\<close>
  is a partial function: its value is \<open>None\<close> where the loop would not end.
\<close>

definition Inflate_done :: "Inflate \<Rightarrow> error + (int option \<times> Inflate)" where
  "Inflate_done s =
     (case verifyAdler s of
        None \<Rightarrow> Inr (None, s\<lparr>current := - 1\<rparr>)
      | Some verify \<Rightarrow>
          (case apply_callback verify (js_or (js_shl (js_rem (s2 s) BASE) 16) (js_rem (s1 s) BASE))
                  (iterator (input s)) of
             Inl e \<Rightarrow> Inl e
           | Inr it \<Rightarrow> Inr (None, s\<lparr>input := (input s)\<lparr>iterator := it\<rparr>, current := - 1\<rparr>)))"

definition Inflate_serve :: "Inflate \<Rightarrow> error + (int option \<times> Inflate)" where
  "Inflate_serve s =
     (case Array_get (window s) (js_and (end_pos s - lengthDecompressed s) WindowMask) of
        None \<Rightarrow> Inl Undefined_read
      | Some v \<Rightarrow>
          Inr (Some v, s\<lparr>current := js_and (end_pos s - lengthDecompressed s) WindowMask,
                          lengthDecompressed := lengthDecompressed s - 1\<rparr>))"

definition Inflate_pass :: "Inflate \<Rightarrow> error + (int option \<times> Inflate)" where
  "Inflate_pass s =
     (case iterator_next (iterator (input s)) of
        Inl e \<Rightarrow> Inl e
      | Inr (None, it) \<Rightarrow> Inl End_Of_Stream_Exception
      | Inr (Some v, it) \<Rightarrow>
          Inr (Some v, s\<lparr>input := (input s)\<lparr>iterator := it\<rparr>,
                          current := end_pos s,
                          window := Array_set (window s) (end_pos s) v,
                          end_pos := js_and (end_pos s + 1) WindowMask,
                          lengthUncompressed := lengthUncompressed s - 1,
                          s1 := s1 s + v,
                          s2 := s2 s + (s1 s + v)\<rparr>))"

partial_function (option) Inflate_next :: "Inflate \<Rightarrow> (error + (int option \<times> Inflate)) option" where
  "Inflate_next s =
     (if 0 < lengthDecompressed s then Some (Inflate_serve s)
      else if 0 < lengthUncompressed s then Some (Inflate_pass s)
      else if Done \<noteq> state s
      then (case Decode (s\<lparr>s1 := js_rem (s1 s) BASE, s2 := js_rem (s2 s) BASE\<rparr>) of
              Inl e \<Rightarrow> Some (Inl e)
            | Inr (again, s') \<Rightarrow> if again then Inflate_next s' else Some (Inflate_done s'))
      else Some (Inflate_done (s\<lparr>s1 := js_rem (s1 s) BASE, s2 := js_rem (s2 s) BASE\<rparr>)))"

section \<open>ZLibInflate: construction\<close>

text \<open>
  \<^verbatim>\<open>
  class ZLibInflate extends Inflate {
      public constructor(iterator: Iterator<number>, verify: Function = null) {
          var result: IteratorResult<number>;
          if ((result = iterator.next()).done) {
              throw Inflate.endOfStreamEx;
          }
          var cm = result.value;
          if (0x08 != (cm & 0xf)) {
              throw "unknown compression method";
          }
          if (((cm >> 4) + 8) > 0x0F) {
              throw "invalid window size";
          }
          if ((result = iterator.next()).done) {
              throw Inflate.endOfStreamEx;
          }
          if ((((cm << 8) + result.value) % 31) != 0) {
              throw "incorrect header check";
          }
          super(iterator, (adler32) => { ... });
      }
  }
  \<close>
\<close>

definition ZLibInflate_new :: "producer \<Rightarrow> error + Inflate" where
  "ZLibInflate_new it =
     (case iterator_next it of
        Inl e \<Rightarrow> Inl e
      | Inr (None, it1) \<Rightarrow> Inl Thrown_undefined
      | Inr (Some cm, it1) \<Rightarrow>
          (if 8 \<noteq> js_and cm 15 then Inl unknown_compression_method
           else if js_sar cm 4 + 8 > 15 then Inl invalid_window_size
           else (case iterator_next it1 of
                   Inl e \<Rightarrow> Inl e
                 | Inr (None, it2) \<Rightarrow> Inl Thrown_undefined
                 | Inr (Some flg, it2) \<Rightarrow>
                     (if js_rem (js_shl cm 8 + flg) 31 \<noteq> 0 then Inl incorrect_header_check
                      else Inr (Inflate_new it2 (Some ZLibInflate_callback))))))"

section \<open>The exported functions\<close>

text \<open>
  \<open>src/src/flate-ts.ts\<close> and \<open>src/src/zlib-iterable.ts\<close> both export these two functions,
  with the same text, over a class \<open>FlateEnumerable\<close> of their own:
  \<^verbatim>\<open>
  export function asInflatable<T>(source?: Iterable<number>): Iterable<number> {
      if (null === source) throw "No Inflate source specidied";
      return new FlateEnumerable(source, (iterator: Iterator<number>) => new Inflate(iterator));
  }

  export function zlibInflate<T>(source?: Iterable<T>): Iterable<T> {
      return null;
  }

  class FlateEnumerable implements Iterable<number> {
      constructor(private _target: Iterable<number>, private _factory: Function) { }
      public [Symbol.iterator](): Iterator<number> {
          return this._factory(this._target[Symbol.iterator]);
      }
  }
  \<close>
  \<open>src/unnamed/part_000\<close> exports \<open>zlibInflate\<close> with the same body, and
  \<^verbatim>\<open>
  export function inflate<T>(source?: Iterable<T>): Iterable<T> {
      return null;
  }
  \<close>
  An argument is \<open>null\<close>, \<open>undefined\<close> (the parameter is optional) or an iterable, modelled by
  the numbers it holds. \<open>this._target[Symbol.iterator]\<close> reads the method without calling it;
  on \<open>undefined\<close> the read is a \<open>TypeError\<close>. The result \<open>null\<close> is \<open>None\<close>.
\<close>

datatype source = Null | Undefined | Iterable "int list"

record FlateEnumerable =
  target :: source
  factory :: "producer \<Rightarrow> Inflate"

definition asInflatable :: "source \<Rightarrow> error + FlateEnumerable" where
  "asInflatable src =
     (if src = Null then Inl No_Inflate_source_specidied
      else Inr \<lparr>target = src, factory = (\<lambda>iterator. Inflate_new iterator None)\<rparr>)"

fun FlateEnumerable_iterator :: "FlateEnumerable \<Rightarrow> error + Inflate" where
  "FlateEnumerable_iterator fe =
     (case target fe of
        Iterable xs \<Rightarrow> Inr (factory fe (IteratorMethod xs))
      | _ \<Rightarrow> Inl TypeError)"

definition zlibInflate :: "source \<Rightarrow> FlateEnumerable option" where
  "zlibInflate src = None"

definition inflate :: "source \<Rightarrow> FlateEnumerable option" where
  "inflate src = None"

section \<open>Evaluation\<close>

text \<open>
  Concrete runs below are evaluated with the code equations. \<open>ToInt32\<close> is the identity on
  the non-negative 32-bit range, which the evaluation uses as a shortcut.
\<close>

lemma ToInt32_id: "0 \<le> x \<Longrightarrow> x < 2 ^ 31 \<Longrightarrow> ToInt32 x = x"
  using signed_take_bit_int_eq_self[of 31 x] by (simp add: ToInt32_def)

lemma ToInt32_code [code]:
  "ToInt32 x = (if 0 \<le> x \<and> x < 2147483648 then x else signed_take_bit 31 x)"
  using ToInt32_id[of x] by (auto simp: ToInt32_def)

declare Inflate_next.simps [code]

section \<open>BitReverse is an involution\<close>

lemma js_and_1: "0 \<le> c \<Longrightarrow> c < 2 ^ 31 \<Longrightarrow> js_and c 1 = c mod 2"
  by (simp add: js_and_def ToInt32_id and_one_eq)

lemma js_or_even_bit: "0 \<le> a \<Longrightarrow> a < 2 ^ 31 \<Longrightarrow> even a \<Longrightarrow> 0 \<le> b \<Longrightarrow> b \<le> 1 \<Longrightarrow> js_or a b = a + b"
proof -
  assume a: "0 \<le> a" "a < 2 ^ 31" "even a" "0 \<le> b" "b \<le> 1"
  then have "b = 0 \<or> b = 1" by auto
  then show ?thesis using a
    by (auto simp add: js_or_def ToInt32_id or_one_eq)
qed

lemma js_shl_1: "0 \<le> a \<Longrightarrow> a < 2 ^ 30 \<Longrightarrow> js_shl a 1 = 2 * a"
  by (simp add: js_shl_def ToInt32_id)

lemma js_sar_1: "0 \<le> a \<Longrightarrow> a < 2 ^ 31 \<Longrightarrow> js_sar a 1 = a div 2"
  by (simp add: js_sar_def ToInt32_id drop_bit_eq_div)

lemma loop_body:
  assumes "0 \<le> code" "code < 2 ^ 31" "0 \<le> num" "even num" "num < 2 ^ 30"
  shows "js_shl (js_or num (js_and code 1)) 1 = 2 * (num + code mod 2)"
proof -
  have b: "0 \<le> code mod 2" "code mod 2 \<le> 1" by auto
  have "num + 1 < 2 ^ 30" using assms(4,5) by (auto elim!: evenE)
  then have "num + code mod 2 < 2 ^ 30" using b by linarith
  moreover have "0 \<le> num + code mod 2" using assms b by linarith
  moreover have "num < 2 ^ 31" using assms by simp
  ultimately show ?thesis using assms b
    by (simp add: js_and_1 js_or_even_bit js_shl_1)
qed

lemma BitReverse_loop_rev_acc:
  "0 \<le> code \<Longrightarrow> code < 2 ^ 31 \<Longrightarrow> 0 \<le> num \<Longrightarrow> even num \<Longrightarrow> num < 2 ^ Suc j \<Longrightarrow> j + Suc m \<le> 30
   \<Longrightarrow> BitReverse_loop num code (int (Suc m)) = 2 * rev_acc (Suc m) (num div 2) code"
proof (induction m arbitrary: num code j)
  case 0
  have "(2::int) ^ Suc j \<le> 2 ^ 30" using 0 by (intro power_increasing) auto
  then have "num < 2 ^ 30" using 0 by linarith
  then show ?case using 0
    by (subst BitReverse_loop.simps) (simp add: loop_body)
next
  case (Suc m)
  have "(2::int) ^ Suc j \<le> 2 ^ 30" using Suc.prems by (intro power_increasing) auto
  then have n30: "num < 2 ^ 30" using Suc.prems by linarith
  have b: "0 \<le> code mod 2" "code mod 2 \<le> 1" by auto
  let ?n = "2 * (num + code mod 2)"
  have step: "BitReverse_loop num code (int (Suc (Suc m))) = BitReverse_loop ?n (code div 2) (int (Suc m))"
    using Suc.prems n30 b
    by (subst BitReverse_loop.simps) (simp add: loop_body js_sar_1)
  have le: "num + 2 \<le> 2 ^ Suc j" using Suc.prems(3,4,5)
    by (auto elim!: evenE)
  have "0 \<le> code div 2" "code div 2 < 2 ^ 31" using Suc.prems by auto
  moreover have "0 \<le> ?n" "even ?n" using Suc.prems b by auto
  moreover have "?n < 2 ^ Suc (Suc j)" using le b by simp
  moreover have "Suc j + Suc m \<le> 30" using Suc.prems by simp
  ultimately have "BitReverse_loop ?n (code div 2) (int (Suc m)) = 2 * rev_acc (Suc m) (?n div 2) (code div 2)"
    by (rule Suc.IH)
  with step show ?case using Suc.prems(4) by (auto elim!: evenE)
qed

lemma bit_rev_acc:
  "bit (rev_acc m acc c) i \<longleftrightarrow> (if i < m then bit c (m - 1 - i) else bit acc (i - m))"
proof (induction m arbitrary: acc c i)
  case 0
  then show ?case by simp
next
  case (Suc m)
  show ?case
  proof (cases "i < m")
    case True
    then show ?thesis using Suc.IH[of "2 * acc + c mod 2" "c div 2" i]
      by (simp add: bit_Suc Suc_diff_Suc flip: bit_Suc)
  next
    case False
    show ?thesis
    proof (cases "i = m")
      case True
      then show ?thesis using Suc.IH[of "2 * acc + c mod 2" "c div 2" i]
        by (simp add: bit_0 )
    next
      case False
      with \<open>\<not> i < m\<close> obtain k where k: "i - m = Suc k" "i - Suc m = k"
        by (metis Suc_diff_Suc linorder_neqE_nat)
      have "(2 * acc + c mod 2) div 2 = acc" by simp
      then show ?thesis using Suc.IH[of "2 * acc + c mod 2" "c div 2" i] False \<open>\<not> i < m\<close> k
        by (simp add: bit_Suc)
    qed
  qed
qed

lemma rev_acc_take_bit: "take_bit n (rev_acc n 0 x) = rev_acc n 0 x"
  by (rule bit_eqI) (simp add: bit_take_bit_iff bit_rev_acc)

lemma rev_acc_bounds: "0 \<le> rev_acc n 0 x" "rev_acc n 0 x < 2 ^ n"
proof -
  have "0 \<le> take_bit n (rev_acc n 0 x)" by simp
  then show "0 \<le> rev_acc n 0 x" by (simp add: rev_acc_take_bit)
  have "take_bit n (rev_acc n 0 x) < 2 ^ n" by simp
  then show "rev_acc n 0 x < 2 ^ n" by (simp add: rev_acc_take_bit)
qed

lemma BitReverse_rev_acc:
  assumes "1 \<le> n" "n \<le> 16" "0 \<le> x" "x < 2 ^ 31"
  shows "BitReverse x (int n) = rev_acc n 0 x"
proof -
  obtain m where m: "n = Suc m" using assms(1) by (cases n) auto
  have loop: "BitReverse_loop 0 x (int n) = 2 * rev_acc n 0 x"
    using assms m BitReverse_loop_rev_acc[where j=0 and num=0 and code=x and m=m] by simp
  have "rev_acc n 0 x < 2 ^ n" by (rule rev_acc_bounds)
  also have "(2::int) ^ n \<le> 2 ^ 16" using assms(2) by (intro power_increasing) auto
  finally have "2 * rev_acc n 0 x < 2 ^ 31" by simp
  moreover have "0 \<le> 2 * rev_acc n 0 x" using rev_acc_bounds(1)[of n x] by simp
  ultimately show ?thesis
    by (simp add: BitReverse_def loop js_sar_1)
qed

lemma rev_acc_involution:
  assumes "0 \<le> x" "x < 2 ^ n"
  shows "rev_acc n 0 (rev_acc n 0 x) = x"
proof (rule bit_eqI)
  fix i
  have x: "take_bit n x = x" using assms by (simp add: take_bit_int_eq_self)
  have hi: "bit x i \<Longrightarrow> i < n"
    using x by (metis bit_take_bit_iff)
  show "bit (rev_acc n 0 (rev_acc n 0 x)) i = bit x i"
    using hi by (auto simp add: bit_rev_acc)
qed

text \<open>
  Claim C9. For every \<open>n\<close> with \<open>1 \<le> n \<le> 16\<close> and every \<open>x\<close> with \<open>0 \<le> x < 2 ^ n\<close>,
  reversing the low \<open>n\<close> bits of \<open>x\<close> twice gives \<open>x\<close> back:
  \<open>BitReverse (BitReverse x n) n = x\<close>.
\<close>

theorem BitReverse_involution:
  assumes "1 \<le> n" "n \<le> 16" "0 \<le> x" "x < 2 ^ n"
  shows "BitReverse (BitReverse x (int n)) (int n) = x"
proof -
  have "(2::int) ^ n \<le> 2 ^ 16" using assms(2) by (intro power_increasing) auto
  then have x31: "x < 2 ^ 31" using assms(4) by simp
  have r: "BitReverse x (int n) = rev_acc n 0 x"
    using assms x31 by (intro BitReverse_rev_acc) auto
  have "rev_acc n 0 x < 2 ^ n" by (rule rev_acc_bounds)
  with \<open>(2::int) ^ n \<le> 2 ^ 16\<close> have "rev_acc n 0 x < 2 ^ 31" by simp
  then have "BitReverse (rev_acc n 0 x) (int n) = rev_acc n 0 (rev_acc n 0 x)"
    using assms rev_acc_bounds(1)[of n x] by (intro BitReverse_rev_acc) auto
  then show ?thesis using assms by (simp add: r rev_acc_involution)
qed

theorem BitReverse_involution_witness:
  "1 \<le> (8::nat) \<and> (8::nat) \<le> 16 \<and> (0::int) \<le> 113 \<and> (113::int) < 2 ^ 8
   \<and> BitReverse 113 8 = 142 \<and> BitReverse 142 8 = 113"
proof -
  have "BitReverse 113 8 = 142" by code_simp
  then show ?thesis using BitReverse_involution[of 8 113] by simp
qed

section \<open>The stored block\<close>

lemma GetBits_8_byte:
  assumes "GetBits 8 b = Inr (v, b')"
  shows "0 \<le> v \<and> v \<le> 255"
proof -
  have "js_and x (js_shl 1 8 - 1) = ToInt32 x AND 255" for x
    by (simp add: js_and_def js_shl_def ToInt32_def)
  moreover have "0 \<le> y AND 255 \<and> y AND 255 \<le> 255" for y :: int
    by (simp add: AND_upper2')
  ultimately show ?thesis using assms
    by (auto simp add: GetBits_def split: sum.splits)
qed

lemma js_not_negative: "0 \<le> x \<Longrightarrow> x < 2 ^ 31 \<Longrightarrow> js_not x < 0"
  by (simp add: js_not_def ToInt32_id not_int_def)

lemma DecodeUncompressedBlock_never_accepts:
  "DecodeUncompressedBlock s \<noteq> Inr r"
proof
  assume "DecodeUncompressedBlock s = Inr r"
  then obtain len_lo len_hi nlen_lo nlen_hi i1 i2 i3 i4 where
    g: "GetBits 8 (SkipToByteBoundary (input s)) = Inr (len_lo, i1)"
       "GetBits 8 i1 = Inr (len_hi, i2)"
       "GetBits 8 i2 = Inr (nlen_lo, i3)"
       "GetBits 8 i3 = Inr (nlen_hi, i4)"
    and eq: "len_lo + len_hi * 256 = js_not (nlen_lo + nlen_hi * 256)"
    by (auto simp add: DecodeUncompressedBlock_def split: sum.splits if_splits)
  have "0 \<le> len_lo + len_hi * 256"
    using GetBits_8_byte[OF g(1)] GetBits_8_byte[OF g(2)] by simp
  moreover have "js_not (nlen_lo + nlen_hi * 256) < 0"
    using GetBits_8_byte[OF g(3)] GetBits_8_byte[OF g(4)] by (intro js_not_negative) auto
  ultimately show False using eq by simp
qed

text \<open>
  Claim C1. The claim has the stored-block state accept a block exactly when \<open>LEN\<close> is the
  16-bit one's complement of \<open>NLEN\<close>, and has the stream \<open>01 01 00 FE FF 41\<close> decode to the
  byte \<open>0x41\<close>. \<open>DecodeUncompressedBlock\<close> compares \<open>LEN\<close> with \<open>~NLEN\<close> unmasked, a negative
  number, so it accepts no block at all (\<open>DecodeUncompressedBlock_never_accepts\<close>); on that
  stream the first pull fails with \<open>InvalidBlockLength\<close>.
\<close>

theorem stored_block_S2_is_rejected:
  "Inflate_next (Inflate_new (Iterator [0x01, 0x01, 0x00, 0xFE, 0xFF, 0x41]) None)
     = Some (Inl InvalidBlockLength)"
  by code_simp

section \<open>What the exported functions return\<close>


text \<open>
  Claim C6. For every argument \<open>zlibInflate\<close> returns \<open>null\<close>, as \<open>inflate\<close> does; and the
  engine that the remaining exported function, \<open>asInflatable\<close>, leads to has no checksum
  callback and is the result of no \<open>ZLibInflate\<close> construction: the wrapper class is reached
  through none of the exports.
\<close>

theorem zlibInflate_returns_null:
  "zlibInflate src = None
   \<and> inflate src = None
   \<and> (case asInflatable src of
         Inl e \<Rightarrow> True
       | Inr fe \<Rightarrow>
           (case FlateEnumerable_iterator fe of
              Inl e \<Rightarrow> True
            | Inr engine \<Rightarrow> verifyAdler engine = None \<and> (\<forall>it. ZLibInflate_new it \<noteq> Inr engine)))"
  by (cases src)
     (auto simp add: zlibInflate_def inflate_def asInflatable_def Inflate_new_def ZLibInflate_new_def
        split: sum.splits option.splits if_splits prod.splits source.splits)

section \<open>The ZLIB header\<close>

text \<open>
  Claim C8, as stated, fails: the header \<open>78 20\<close> has the deflate method, a valid window
  size, a header check divisible by 31 and bit 5 (FDICT) of \<open>FLG\<close> set, and construction
  succeeds.
\<close>

theorem ZLibInflate_new_FDICT_counterexample:
  "js_and 0x20 0x20 \<noteq> 0
   \<and> ZLibInflate_new (Iterator [0x78, 0x20, 0x4B, 0x04, 0x00])
       = Inr (Inflate_new (Iterator [0x4B, 0x04, 0x00]) (Some ZLibInflate_callback))"
  by code_simp

text \<open>
  Claim C8, as amended. Construction inspects the compression method, the window size and
  the header check only: whenever these three hold it succeeds, whatever bit 5 (FDICT) of
  \<open>FLG\<close> is, and hands the rest of the input to an engine with the Adler-32 callback.
\<close>

theorem ZLibInflate_new_header_checks_only:
  assumes "js_and cm 15 = 8" and "js_sar cm 4 + 8 \<le> 15" and "js_rem (js_shl cm 8 + flg) 31 = 0"
  shows "ZLibInflate_new (Iterator (cm # flg # rest))
           = Inr (Inflate_new (Iterator rest) (Some ZLibInflate_callback))"
  using assms by (simp add: ZLibInflate_new_def)

theorem ZLibInflate_new_header_checks_only_witness:
  "js_and 0x78 15 = 8 \<and> js_sar 0x78 4 + 8 \<le> 15 \<and> js_rem (js_shl 0x78 8 + 0x20) 31 = 0
   \<and> js_and 0x20 0x20 = 0x20
   \<and> ZLibInflate_new (Iterator [0x78, 0x20, 0x4B])
       = Inr (Inflate_new (Iterator [0x4B]) (Some ZLibInflate_callback))"
proof -
  have h: "js_and 0x78 15 = 8" "js_sar 0x78 4 + 8 \<le> 15" "js_rem (js_shl 0x78 8 + 0x20) 31 = 0"
    "js_and 0x20 0x20 = 0x20"
    by code_simp+
  show ?thesis using h ZLibInflate_new_header_checks_only[OF h(1) h(2) h(3), of "[0x4B]"] by simp
qed

section \<open>GetBits on an exhausted producer\<close>

lemma fill_Iterator:
  assumes "iterator b = Iterator vs"
  shows "\<exists>k b1. fill n b = Inr b1 \<and> k \<le> 2 \<and> k \<le> length vs
           \<and> iterator b1 = Iterator (drop k vs)
           \<and> bitsInBuffer b1 = bitsInBuffer b + 8 * int k
           \<and> (vs = [] \<longrightarrow> b1 = b)"
proof (cases "bitsInBuffer b < n")
  case False
  then have "fill n b = Inr b" by (simp add: fill_def load_def)
  then show ?thesis using assms by (intro exI[of _ 0] exI[of _ b]) simp
next
  case lt: True
  show ?thesis
  proof (cases vs)
    case Nil
    then have "fill n b = Inr b" using assms lt by (simp add: fill_def load_def)
    then show ?thesis using assms Nil by (intro exI[of _ 0] exI[of _ b]) simp
  next
    case (Cons v vs1)
    define b1 where "b1 = \<lparr>bitBuffer = js_or (bitBuffer b) (js_shl v (bitsInBuffer b)),
                           bitsInBuffer = bitsInBuffer b + 8, iterator = Iterator vs1\<rparr>"
    have l1: "load n b = Inr (True, b1)"
      using assms lt Cons by (simp add: load_def b1_def)
    show ?thesis
    proof (cases "bitsInBuffer b1 < n")
      case False
      then have "fill n b = Inr b1" using l1 by (simp add: fill_def load_def)
      then show ?thesis using Cons by (intro exI[of _ 1] exI[of _ b1]) (simp add: b1_def)
    next
      case lt1: True
      show ?thesis
      proof (cases vs1)
        case Nil
        then have "fill n b = Inr b1" using l1 lt1 by (simp add: fill_def load_def b1_def)
        then show ?thesis using Cons Nil by (intro exI[of _ 1] exI[of _ b1]) (simp add: b1_def)
      next
        case (Cons w vs2)
        define b2 where "b2 = \<lparr>bitBuffer = js_or (bitBuffer b1) (js_shl w (bitsInBuffer b1)),
                           bitsInBuffer = bitsInBuffer b1 + 8, iterator = Iterator vs2\<rparr>"
        have "fill n b = Inr b2" using l1 lt1 Cons by (simp add: fill_def load_def b1_def b2_def)
        then show ?thesis using \<open>vs = v # vs1\<close> Cons
          by (intro exI[of _ 2] exI[of _ b2]) (simp add: b1_def b2_def)
      qed
    qed
  qed
qed

lemma low_bits_mask:
  assumes "0 \<le> n" "n \<le> 16"
  shows "js_and x (js_shl 1 n - 1) = take_bit (nat n) (ToInt32 x)"
proof -
  have n: "n mod 32 = n" using assms by simp
  have "(2::int) ^ nat n \<le> 2 ^ 16" using assms by (intro power_increasing) auto
  then have p: "(2::int) ^ nat n < 2 ^ 31" by simp
  have "js_shl 1 n = 2 ^ nat n"
    using p by (simp add: js_shl_def n ToInt32_id)
  moreover have "ToInt32 (2 ^ nat n - 1) = 2 ^ nat n - 1"
    using p by (intro ToInt32_id) auto
  ultimately show ?thesis
    by (simp add: js_and_def take_bit_eq_mask mask_eq_exp_minus_1)
qed

text \<open>
  Claim C10. For every \<open>n\<close>, \<open>GetBits n\<close> over an iterator returns normally, after
  \<open>k \<le> 2\<close> single-byte fills, with the count decreased by \<open>n\<close> (and increased by \<open>8 * k\<close>).
  When the producer is exhausted and fewer than \<open>n\<close> bits are buffered, it still returns the
  low \<open>n\<close> bits of the register, zero-extended, and \<open>AvailableBits\<close> is left negative; no
  end of stream is signalled.
\<close>

theorem GetBits_never_signals_EndOfStream:
  assumes "iterator b = Iterator vs"
  shows "\<exists>bits b' k. GetBits n b = Inr (bits, b')
           \<and> k \<le> 2 \<and> k \<le> length vs \<and> iterator b' = Iterator (drop k vs)
           \<and> bitsInBuffer b' = bitsInBuffer b + 8 * int k - n
           \<and> (vs = [] \<and> bitsInBuffer b < n \<longrightarrow>
                 AvailableBits b' < 0
                 \<and> bits = js_and (bitBuffer b) (js_shl 1 n - 1)
                 \<and> (0 \<le> n \<and> n \<le> 16 \<longrightarrow> bits = take_bit (nat n) (ToInt32 (bitBuffer b))))"
proof -
  obtain k b1 where f: "fill n b = Inr b1" "k \<le> 2" "k \<le> length vs"
      "iterator b1 = Iterator (drop k vs)" "bitsInBuffer b1 = bitsInBuffer b + 8 * int k"
      "vs = [] \<longrightarrow> b1 = b"
    using fill_Iterator[OF assms, of n] by blast
  let ?bits = "js_and (bitBuffer b1) (js_shl 1 n - 1)"
  let ?b' = "b1\<lparr>bitBuffer := js_sar (bitBuffer b1) n, bitsInBuffer := bitsInBuffer b1 - n\<rparr>"
  have "GetBits n b = Inr (?bits, ?b')" using f(1) by (simp add: GetBits_def)
  moreover have "iterator ?b' = Iterator (drop k vs)" using f(4) by simp
  moreover have "bitsInBuffer ?b' = bitsInBuffer b + 8 * int k - n" using f(5) by simp
  moreover have "vs = [] \<and> bitsInBuffer b < n \<longrightarrow>
                 AvailableBits ?b' < 0
                 \<and> ?bits = js_and (bitBuffer b) (js_shl 1 n - 1)
                 \<and> (0 \<le> n \<and> n \<le> 16 \<longrightarrow> ?bits = take_bit (nat n) (ToInt32 (bitBuffer b)))"
    using f(6) by (auto simp add: AvailableBits_def low_bits_mask)
  ultimately show ?thesis using f(2,3) by blast
qed

theorem GetBits_never_signals_EndOfStream_witness:
  "iterator \<lparr>bitBuffer = 5, bitsInBuffer = 3, iterator = Iterator []\<rparr> = Iterator []
   \<and> bitsInBuffer \<lparr>bitBuffer = 5, bitsInBuffer = 3, iterator = Iterator []\<rparr> < 8
   \<and> (0::int) \<le> 8 \<and> (8::int) \<le> 16
   \<and> GetBits 8 \<lparr>bitBuffer = 5, bitsInBuffer = 3, iterator = Iterator []\<rparr>
       = Inr (5, \<lparr>bitBuffer = 0, bitsInBuffer = - 5, iterator = Iterator []\<rparr>)
   \<and> AvailableBits \<lparr>bitBuffer = 0, bitsInBuffer = - 5, iterator = Iterator []\<rparr> < 0"
proof -
  have g: "GetBits 8 \<lparr>bitBuffer = 5, bitsInBuffer = 3, iterator = Iterator []\<rparr>
       = Inr (5, \<lparr>bitBuffer = 0, bitsInBuffer = - 5, iterator = Iterator []\<rparr>)"
    by code_simp
  show ?thesis
    using GetBits_never_signals_EndOfStream[of "\<lparr>bitBuffer = 5, bitsInBuffer = 3, iterator = Iterator []\<rparr>" "[]" 8] g
    by (auto simp add: AvailableBits_def)
qed

section \<open>Table entries\<close>

lemma u8_get_byte: "u8_get a i = Some v \<Longrightarrow> 0 \<le> v \<and> v \<le> 255"
proof -
  assume "u8_get a i = Some v"
  then obtain w :: "8 word" where "v = uint w"
    by (auto simp add: u8_get_def split: if_splits)
  moreover have "uint w < 2 ^ LENGTH(8)" by (rule uint_lt2p)
  ultimately show ?thesis by simp
qed

lemma GetNextSymbol_byte:
  assumes "GetNextSymbol t i = Inr (symbol, i')"
  shows "0 \<le> symbol \<and> symbol \<le> 255"
  using assms
  by (auto simp add: GetNextSymbol_def split: sum.splits option.splits if_splits prod.splits
        dest: u8_get_byte)

text \<open>
  Claim C3. The claim has the direct-table entry of a code longer than \<open>tableBits\<close> be a
  negative index into the auxiliary arrays. The table is a \<open>Uint8Array\<close>: the 288 code
  lengths that give symbol 0 the length 10 and the end-of-block symbol 256 the length 2 (and
  no other symbol a code) build a table without error, whose entry 252, the one of the
  10-bit code, is the byte 224, the stored form of \<open>-288\<close>. On the input \<open>FC 00\<close>
  \<open>GetNextSymbol\<close> takes that byte for the symbol, never looks at \<open>left[288]\<close>, and consumes
  no bit, 224 being a symbol without a code.
\<close>

theorem long_code_entry_is_a_byte:
  "case HuffmanTree_new (10 # replicate 255 0 @ 2 # replicate 31 0) of
     Inl e \<Rightarrow> False
   | Inr t \<Rightarrow>
       tableBits t = 9
       \<and> u8_get (table t) 252 = Some 224
       \<and> u8_get (left t) 288 = Some 0
       \<and> table_get (codeLengthArray t) 224 = Some 0
       \<and> GetNextSymbol t (InputBuffer_new (Iterator [0xFC, 0x00]))
           = Inr (224, \<lparr>bitBuffer = 252, bitsInBuffer = 16, iterator = Iterator []\<rparr>)"
  by code_simp

section \<open>Distance codes 30 and 31\<close>





section \<open>Static blocks\<close>

text \<open>
  Claim C2. The claim has the engine over \<open>4B 04 00\<close> yield one byte and then report
  exhaustion. The first pull reads \<open>BFINAL = 1\<close> and \<open>BTYPE = 01\<close>, installs the static trees
  and runs \<open>DecodeBlock\<close>, which takes two literals from the table (27 and 2, eight bits each)
  and then throws \<open>EndOfStreamException()\<close> with five bits left: the pull fails and no byte is
  ever returned.
\<close>

theorem static_block_S3_fails:
  "Inflate_next (Inflate_new (Iterator [0x4B, 0x04, 0x00]) None) = Some (Inl EndOfStreamException)"
  by code_simp

section \<open>The count of buffered bits\<close>

text \<open>
  Claim C4. The claim has the count stay within \<open>0 .. 32\<close>, the register hold nothing at or
  above the count, and no fill shift a byte by 24 or more. The constructor's \<open>for-in\<close> loop
  leaves \<open>_maxCodeLength = 287\<close> for the static literal/length tree, so \<open>GetNextSymbol\<close> asks
  \<open>TryGetBits\<close> for 287 bits and two bytes are loaded at every symbol. On the seven bytes
  \<open>4B 04 00 00 00 00 FF\<close> the engine's operations are \<open>GetBits(1)\<close>, \<open>GetBits(2)\<close> and then
  \<open>GetNextSymbol\<close> per symbol: after two symbols the count is 21, and the \<open>TryGetBits\<close> of the
  third symbol fills at counts 21 and 29, leaving a count of 37 and a negative register
  (\<open>FF << 29\<close> keeps three bits of the byte, one of them the sign bit). On an empty producer
  the very first \<open>GetBits(1)\<close> leaves the count at \<open>-1\<close>.
\<close>

theorem static_block_overfills_bit_buffer:
  "(case StaticLiteralLengthTree of
      Inl e \<Rightarrow> False
    | Inr t \<Rightarrow>
        maxCodeLength t = 287
        \<and> (case GetBits 1 (InputBuffer_new (Iterator [0x4B, 0x04, 0, 0, 0, 0, 0xFF])) of
             Inl e \<Rightarrow> False
           | Inr (bf, b1) \<Rightarrow>
        (case GetBits 2 b1 of
             Inl e \<Rightarrow> False
           | Inr (bt, b2) \<Rightarrow>
        (case GetNextSymbol t b2 of
             Inl e \<Rightarrow> False
           | Inr (x1, b3) \<Rightarrow>
        (case GetNextSymbol t b3 of
             Inl e \<Rightarrow> False
           | Inr (x2, b4) \<Rightarrow>
        (case TryGetBits (maxCodeLength t) b4 of
             Inl e \<Rightarrow> False
           | Inr (x3, b5) \<Rightarrow>
               bf = 1 \<and> bt = ReadingStatic
               \<and> bitsInBuffer b4 = 21
               \<and> b5 = \<lparr>bitBuffer = - 536870912, bitsInBuffer = 37, iterator = Iterator []\<rparr>))))))
   \<and> GetBits 1 (InputBuffer_new (Iterator []))
       = Inr (0, \<lparr>bitBuffer = 0, bitsInBuffer = - 1, iterator = Iterator []\<rparr>)"
  by code_simp

section \<open>No pull ever reports exhaustion\<close>

text \<open>
  Every symbol that \<open>GetNextSymbol\<close> returns is a byte, so \<open>DecodeBlock\<close> never sees the
  end-of-block symbol 256 nor a length symbol; \<open>DecodeUncompressedBlock\<close> accepts no block.
  Hence \<open>Decode\<close> never reaches the state \<open>Done\<close>, and a pull on an engine that is not
  already \<open>Done\<close> (a new engine is not) returns a byte or fails, and leaves an engine
  that is not \<open>Done\<close> either.
\<close>

lemma DecodeBlock_loop_never_ends_block:
  "DecodeBlock_loop freeBytes s = Inr (r, s') \<Longrightarrow>
     r \<and> state s' = DecodingBlock \<and> \<not> end_of_block_code_seen s' \<and> bfinal s' = bfinal s"
proof (induction freeBytes s arbitrary: r s' rule: DecodeBlock_loop.induct)
  case (1 freeBytes s)
  show ?case
  proof (cases "freeBytes > 258")
    case False
    then show ?thesis using "1.prems"
      by (subst (asm) DecodeBlock_loop.simps) auto
  next
    case True
    from "1.prems" True obtain t smbl inp where
      t: "literalLengthTree s = Some t" and g: "GetNextSymbol t (input s) = Inr (smbl, inp)"
      by (subst (asm) DecodeBlock_loop.simps) (auto split: option.splits sum.splits)
    have lit: "smbl < 256" using GetNextSymbol_byte[OF g] by simp
    have rec: "DecodeBlock_loop (freeBytes - 1) (Write smbl (s\<lparr>input := inp\<rparr>)) = Inr (r, s')"
      using "1.prems" True t g lit
      by (subst (asm) DecodeBlock_loop.simps) simp
    have "r \<and> state s' = DecodingBlock \<and> \<not> end_of_block_code_seen s'
           \<and> bfinal s' = bfinal (Write smbl (s\<lparr>input := inp\<rparr>))"
      using "1.IH"(1)[OF True t g _ lit rec] by simp
    then show ?thesis by (simp add: Write_def)
  qed
qed


lemma Decode_switch_never_ends_block:
  "Decode_switch s = Inr (r, s') \<Longrightarrow> r \<and> state s' = DecodingBlock \<and> \<not> end_of_block_code_seen s'"
proof (induction s arbitrary: r s' rule: Decode_switch.induct)
  case (1 s)
  consider (final) "state s = ReadingFinalBit"
    | (type) "state s \<noteq> ReadingFinalBit" "state s = ReadingBlockType"
    | (static) "state s \<noteq> ReadingFinalBit" "state s \<noteq> ReadingBlockType" "state s = ReadingStatic"
    | (dynamic) "state s \<noteq> ReadingFinalBit" "state s \<noteq> ReadingBlockType" "state s \<noteq> ReadingStatic"
        "state s = ReadingDynamic"
    | (block) "state s \<noteq> ReadingFinalBit" "state s \<noteq> ReadingBlockType" "state s \<noteq> ReadingStatic"
        "state s \<noteq> ReadingDynamic" "state s = DecodingBlock"
    | (other) "state s \<noteq> ReadingFinalBit" "state s \<noteq> ReadingBlockType" "state s \<noteq> ReadingStatic"
        "state s \<noteq> ReadingDynamic" "state s \<noteq> DecodingBlock"
    by blast
  then show ?case
  proof cases
    case final
    from "1.prems" final obtain b i1 t i2 where
      g: "GetBits 1 (input s) = Inr (b, i1)" "GetBits 2 i1 = Inr (t, i2)"
      and rec: "Decode_switch (s\<lparr>bfinal := b, input := i2, state := t\<rparr>) = Inr (r, s')"
      by (subst (asm) Decode_switch.simps) (auto split: sum.splits)
    show ?thesis using "1.IH"(1)[OF final g(1) _ g(2) _ rec] by simp
  next
    case type
    from "1.prems" type obtain t i2 where
      g: "GetBits 2 (input s) = Inr (t, i2)"
      and rec: "Decode_switch (s\<lparr>input := i2, state := t\<rparr>) = Inr (r, s')"
      by (subst (asm) Decode_switch.simps) (auto split: sum.splits)
    show ?thesis using "1.IH"(2)[OF type g _ rec] by simp
  next
    case static
    from "1.prems" static obtain lt dt where
      g: "StaticLiteralLengthTree = Inr lt" "StaticDistanceTree = Inr dt"
      and rec: "Decode_switch (s\<lparr>literalLengthTree := Some lt, distanceTree := Some dt,
                               isDynamic := False, state := DecodingBlock\<rparr>) = Inr (r, s')"
      by (subst (asm) Decode_switch.simps) (auto split: sum.splits)
    show ?thesis using "1.IH"(3)[OF static g rec] by simp
  next
    case dynamic
    from "1.prems" dynamic obtain sa where
      "DecodeBlock (sa\<lparr>isDynamic := True\<rparr>) = Inr (r, s')"
      by (subst (asm) Decode_switch.simps) (auto split: sum.splits)
    then show ?thesis
      using DecodeBlock_loop_never_ends_block by (auto simp add: DecodeBlock_def)
  next
    case block
    from "1.prems" block have "DecodeBlock s = Inr (r, s')"
      by (subst (asm) Decode_switch.simps) (auto split: sum.splits)
    then show ?thesis
      using DecodeBlock_loop_never_ends_block by (auto simp add: DecodeBlock_def)
  next
    case other
    from "1.prems" other show ?thesis
      using DecodeUncompressedBlock_never_accepts
      by (subst (asm) Decode_switch.simps) (auto split: sum.splits if_splits)
  qed
qed

lemma Decode_never_Done:
  "Decode s = Inr (r, s') \<Longrightarrow> r \<and> state s' = DecodingBlock"
  using Decode_switch_never_ends_block
  by (fastforce simp add: Decode_def split: sum.splits prod.splits if_splits)

lemma Inflate_next_never_done:
  assumes "Inflate_next s = Some r"
  shows "state s \<noteq> Done \<longrightarrow>
           (case r of Inl e \<Rightarrow> True | Inr (v, s') \<Rightarrow> v \<noteq> None \<and> state s' \<noteq> Done)"
  using assms
proof (induction rule: Inflate_next.raw_induct[rotated 1, consumes 1, case_names step])
  case (step next' s r)
  show ?case
  proof
    assume nd: "state s \<noteq> Done"
    show "case r of Inl e \<Rightarrow> True | Inr (v, s') \<Rightarrow> v \<noteq> None \<and> state s' \<noteq> Done"
    proof (cases "0 < lengthDecompressed s")
      case True
      then show ?thesis using step(2) nd
        by (auto simp add: Inflate_serve_def split: option.splits)
    next
      case nodec: False
      show ?thesis
      proof (cases "0 < lengthUncompressed s")
        case True
        then show ?thesis using step(2) nodec nd
          by (auto simp add: Inflate_pass_def split: option.splits sum.splits prod.splits)
      next
        case False
        let ?s = "s\<lparr>s1 := js_rem (s1 s) BASE, s2 := js_rem (s2 s) BASE\<rparr>"
        show ?thesis
        proof (cases "Decode ?s")
          case (Inl e)
          then show ?thesis using step(2) nd nodec False by auto
        next
          case (Inr p)
          obtain again s'' where p: "p = (again, s'')" by (cases p)
          have d: "again" "state s'' = DecodingBlock"
            using Decode_never_Done[of ?s again s''] Inr p by auto
          have "next' s'' = Some r"
            using step(2) nd nodec False Inr p d by auto
          moreover have "state s'' \<noteq> Done" using d by (simp add: State_defs)
          ultimately show ?thesis using step(1) by blast
        qed
      qed
    qed
  qed
qed

end
